theory Spec2Isabelle
  imports Complex_Main "HOL-Library.Sublist" "HOL-Library.Multiset"
begin

section \<open>SafeMail: the phishing classifier of js/safemail.js\<close>

text \<open>
  The classifier takes the text of an email and returns a prediction (\<open>Phishing\<close> or
  \<open>Safe\<close>), a confidence and an explanation. It first asks a small linear model
  (\<open>predictWithModel\<close>), falls back to a weighted catalogue of regular expressions
  (\<open>analyzeWithRules\<close>) and finally lets strong legitimacy phrasing turn a
  \<open>Phishing\<close> verdict into \<open>Safe\<close> (\<open>analyzeEmail\<close>).

  Conventions of the model:
  \<^item> A string is a list of 8-bit characters, read as the code units U+0000 to U+00FF
    (ASCII and Latin-1). Texts with code units beyond U+00FF are outside the model.
  \<^item> A JavaScript number is \<open>NaN\<close>, an infinity or a real. In the rule engine and the
    entry point finite arithmetic is exact: rounding to doubles, overflow and the sign of
    zero are not modelled. Every confidence the rule engine returns is a whole number of
    hundredths, where the exact value and the double the program returns denote the same
    decimal.
  \<^item> The global variable \<open>model\<close> is read-only during an analysis; it is passed as an
    argument. For the entry point its fields have the types the source declares for them
    (\<open>{ vocab: string[], coef: number[], intercept: number }\<close>), and each may be missing.
  \<^item> The model scorer is given a second time, \<open>predictWithModelParsed\<close>, for whatever
    value \<open>JSON.parse\<close> may have stored in \<open>model\<close>: with the conversions of \<open>Number\<close>,
    with a \<open>TypeError\<close> as an outcome, and with the score computed on doubles, rounded and
    overflowing as IEEE 754 has it.
  \<^item> A regular expression literal is evaluated anew at every call, so \<open>lastIndex\<close>
    is 0 whenever \<open>test\<close> runs and the flag \<open>g\<close> has no effect on \<open>test\<close>.
\<close>

subsection \<open>Characters\<close>

text \<open>\<open>\w\<close> is \<open>[A-Za-z0-9_]\<close>, \<open>\d\<close> is \<open>[0-9]\<close>; \<open>\s\<close> (and what \<open>trim\<close> strips)
  is TAB, LF, VT, FF, CR, SPACE and NO-BREAK SPACE among the first 256 code units.\<close>

definition isWordChar :: "char \<Rightarrow> bool" where
  "isWordChar c = (let n = (of_char c :: nat) in
     (48 \<le> n \<and> n \<le> 57) \<or> (65 \<le> n \<and> n \<le> 90) \<or> n = 95 \<or> (97 \<le> n \<and> n \<le> 122))"

definition isDigitChar :: "char \<Rightarrow> bool" where
  "isDigitChar c = (let n = (of_char c :: nat) in 48 \<le> n \<and> n \<le> 57)"

definition isSpaceChar :: "char \<Rightarrow> bool" where
  "isSpaceChar c = (let n = (of_char c :: nat) in (9 \<le> n \<and> n \<le> 13) \<or> n = 32 \<or> n = 160)"

text \<open>\<open>toLowerCase\<close> on one code unit: A-Z and the Latin-1 capitals (all of U+00C0 to
  U+00DE but the multiplication sign) move up by 32.\<close>

definition toLowerChar :: "char \<Rightarrow> char" where
  "toLowerChar c = (let n = (of_char c :: nat) in
     if (65 \<le> n \<and> n \<le> 90) \<or> (192 \<le> n \<and> n \<le> 222 \<and> n \<noteq> 215)
     then char_of (n + 32) else c)"

text \<open>The canonical form the flag \<open>i\<close> compares: the upper-case code unit. The two
  small letters of Latin-1 whose capital lies beyond U+00FF (U+00B5, U+00FF) and the sharp s
  stay as they are: no other code unit of the model shares their canonical form.\<close>

definition canonChar :: "char \<Rightarrow> char" where
  "canonChar c = (let n = (of_char c :: nat) in
     if (97 \<le> n \<and> n \<le> 122) \<or> (224 \<le> n \<and> n \<le> 254 \<and> n \<noteq> 247)
     then char_of (n - 32) else c)"

definition toLowerCase :: "string \<Rightarrow> string" where
  "toLowerCase s = map toLowerChar s"

definition trim :: "string \<Rightarrow> string" where
  "trim s = rev (dropWhile isSpaceChar (rev (dropWhile isSpaceChar s)))"

subsection \<open>Tokenizer and stemmer\<close>

text \<open>\<open>replace(/[^\w\s]/g, ' ')\<close> on one character.\<close>

definition blankPunct :: "char \<Rightarrow> char" where
  "blankPunct c = (if \<not> isWordChar c \<and> \<not> isSpaceChar c then CHR '' '' else c)"

text \<open>\<open>split(/\s+/)\<close>: the fields between maximal runs of whitespace, the empty fields
  at either end included. The first argument is the field read so far.\<close>

function splitSpaces :: "string \<Rightarrow> string \<Rightarrow> string list" where
  "splitSpaces cur [] = [cur]"
| "splitSpaces cur (c # cs) =
     (if isSpaceChar c then cur # splitSpaces [] (dropWhile isSpaceChar cs)
      else splitSpaces (cur @ [c]) cs)"
  by pat_completeness auto
termination
  by (relation "measure (\<lambda>(cur, s). length s)") (auto simp: le_imp_less_Suc length_dropWhile_le)

definition tokenize :: "string \<Rightarrow> string list" where
  "tokenize text = filter (\<lambda>w. w \<noteq> []) (splitSpaces [] (map blankPunct (toLowerCase text)))"

text \<open>\<open>word.slice(-n)\<close> and \<open>word.slice(0, -n)\<close>.\<close>

definition sliceLast :: "nat \<Rightarrow> string \<Rightarrow> string" where
  "sliceLast n w = drop (length w - n) w"

definition sliceInit :: "nat \<Rightarrow> string \<Rightarrow> string" where
  "sliceInit n w = take (length w - n) w"

definition stem :: "string \<Rightarrow> string" where
  "stem word =
     (if word = [] \<or> length word < 4 then word
      else if length word > 5 \<and> sliceLast 3 word = ''ing'' then sliceInit 3 word
      else if length word > 4 \<and> sliceLast 2 word = ''ed'' then sliceInit 2 word
      else if length word > 5 \<and> sliceLast 2 word = ''ly'' then sliceInit 2 word
      else word)"

subsection \<open>Numbers\<close>

datatype jsnum = NaN | PInf | NInf | Fin real

fun jneg :: "jsnum \<Rightarrow> jsnum" where
  "jneg NaN = NaN"
| "jneg PInf = NInf"
| "jneg NInf = PInf"
| "jneg (Fin x) = Fin (- x)"

fun jadd :: "jsnum \<Rightarrow> jsnum \<Rightarrow> jsnum" where
  "jadd NaN y = NaN"
| "jadd x NaN = NaN"
| "jadd PInf NInf = NaN"
| "jadd NInf PInf = NaN"
| "jadd PInf y = PInf"
| "jadd x PInf = PInf"
| "jadd NInf y = NInf"
| "jadd x NInf = NInf"
| "jadd (Fin x) (Fin y) = Fin (x + y)"

definition jsub :: "jsnum \<Rightarrow> jsnum \<Rightarrow> jsnum" where
  "jsub x y = jadd x (jneg y)"

text \<open>The sign of a number that is not \<open>NaN\<close>: -1, 0 or 1.\<close>

fun jsign :: "jsnum \<Rightarrow> int" where
  "jsign NaN = 0"
| "jsign PInf = 1"
| "jsign NInf = -1"
| "jsign (Fin x) = (if x < 0 then -1 else if x = 0 then 0 else 1)"

definition signedInf :: "int \<Rightarrow> jsnum" where
  "signedInf s = (if s < 0 then NInf else PInf)"

fun jmul :: "jsnum \<Rightarrow> jsnum \<Rightarrow> jsnum" where
  "jmul NaN y = NaN"
| "jmul x NaN = NaN"
| "jmul (Fin x) (Fin y) = Fin (x * y)"
| "jmul x y = (if jsign x * jsign y = 0 then NaN else signedInf (jsign x * jsign y))"

fun jdiv :: "jsnum \<Rightarrow> jsnum \<Rightarrow> jsnum" where
  "jdiv NaN y = NaN"
| "jdiv x NaN = NaN"
| "jdiv (Fin x) (Fin y) =
     (if y = 0 then (if x = 0 then NaN else signedInf (jsign (Fin x))) else Fin (x / y))"
| "jdiv (Fin x) y = Fin 0"
| "jdiv x (Fin y) = signedInf (jsign x * (if y < 0 then -1 else 1))"
| "jdiv x y = NaN"

text \<open>\<open>x >= y\<close>, false when either side is \<open>NaN\<close>.\<close>

fun jge :: "jsnum \<Rightarrow> jsnum \<Rightarrow> bool" where
  "jge NaN y = False"
| "jge x NaN = False"
| "jge PInf y = True"
| "jge x NInf = True"
| "jge NInf y = False"
| "jge x PInf = False"
| "jge (Fin x) (Fin y) = (y \<le> x)"

definition jmax :: "jsnum \<Rightarrow> jsnum \<Rightarrow> jsnum" where
  "jmax x y = (if x = NaN \<or> y = NaN then NaN else if jge x y then x else y)"

definition jmin :: "jsnum \<Rightarrow> jsnum \<Rightarrow> jsnum" where
  "jmin x y = (if x = NaN \<or> y = NaN then NaN else if jge x y then y else x)"

text \<open>\<open>Math.round\<close>: the nearest integer, ties towards positive infinity.\<close>

fun jround :: "jsnum \<Rightarrow> jsnum" where
  "jround (Fin x) = Fin (of_int \<lfloor>x + 1 / 2\<rfloor>)"
| "jround x = x"

fun jexp :: "jsnum \<Rightarrow> jsnum" where
  "jexp NaN = NaN"
| "jexp PInf = PInf"
| "jexp NInf = Fin 0"
| "jexp (Fin x) = Fin (exp x)"

text \<open>\<open>Math.round(confidence * 100) / 100\<close>.\<close>

definition round2 :: "jsnum \<Rightarrow> jsnum" where
  "round2 c = jdiv (jround (jmul c (Fin 100))) (Fin 100)"

definition sigmoid :: "jsnum \<Rightarrow> jsnum" where
  "sigmoid x =
     (if x = NaN then Fin (1 / 2)
      else if jge x (Fin 0) then jdiv (Fin 1) (jadd (Fin 1) (jexp (jneg x)))
      else (let e = jexp x in jdiv e (jadd (Fin 1) e)))"

subsection \<open>Results and the model scorer\<close>

record result =
  prediction :: string
  confidence :: jsnum
  explanation :: string

text \<open>The parsed model file. A field that the file lacks is \<open>None\<close> (\<open>undefined\<close> in
  the program); arrays are truthy, so a present \<open>vocab\<close> or \<open>coef\<close> passes the guard.\<close>

record model =
  vocab :: "string list option"
  coef :: "jsnum list option"
  intercept :: "jsnum option"

text \<open>\<open>Number(model.intercept)\<close>: \<open>undefined\<close> becomes \<open>NaN\<close>.\<close>

fun toNumber :: "jsnum option \<Rightarrow> jsnum" where
  "toNumber None = NaN"
| "toNumber (Some x) = x"

text \<open>\<open>Array.prototype.indexOf\<close>: the first index, \<open>None\<close> for -1.\<close>

fun indexOf :: "'a list \<Rightarrow> 'a \<Rightarrow> nat option" where
  "indexOf [] x = None"
| "indexOf (y # ys) x = (if y = x then Some 0 else map_option Suc (indexOf ys x))"

definition bump :: "nat list \<Rightarrow> nat \<Rightarrow> nat list" where
  "bump counts idx = counts[idx := counts ! idx + 1]"

text \<open>The body of the loop over the words (lines 40 to 46).\<close>

definition countWord :: "string list \<Rightarrow> nat list \<Rightarrow> string \<Rightarrow> nat list" where
  "countWord v counts w =
     (case indexOf v w of
        Some idx \<Rightarrow> bump counts idx
      | None \<Rightarrow>
          (let s = stem w in
           if s \<noteq> w then (case indexOf v s of Some idx \<Rightarrow> bump counts idx | None \<Rightarrow> counts)
           else counts))"

definition countWords :: "string list \<Rightarrow> string list \<Rightarrow> nat list" where
  "countWords v words = foldl (countWord v) (replicate (length v) 0) words"

text \<open>\<open>counts[j]\<close> as a factor: beyond the end of \<open>counts\<close> it is \<open>undefined\<close>, and a
  product with \<open>undefined\<close> is \<open>NaN\<close>.\<close>

definition countAt :: "nat list \<Rightarrow> nat \<Rightarrow> jsnum" where
  "countAt counts j = (if j < length counts then Fin (real (counts ! j)) else NaN)"

text \<open>The loop of line 49, over the indices of \<open>coef\<close>.\<close>

definition linearScore :: "jsnum \<Rightarrow> jsnum list \<Rightarrow> nat list \<Rightarrow> jsnum" where
  "linearScore i cf counts =
     foldl (\<lambda>score j. jadd score (jmul (cf ! j) (countAt counts j))) i [0..<length cf]"

definition modelExplanation :: "string \<Rightarrow> string" where
  "modelExplanation p =
     ''Local ML model (logistic regression) classified this text based on word patterns. '' @
     (if p = ''Phishing'' then ''Consider verifying the sender and avoiding links or sharing data.''
      else ''No strong phishing signals; still verify important requests through official channels.'')"

text \<open>Lines 51 to 62: from the score to the result.\<close>

definition scoreResult :: "jsnum \<Rightarrow> result" where
  "scoreResult score =
     (let probPhishing = sigmoid score;
          p = (if jge probPhishing (Fin (1 / 2)) then ''Phishing'' else ''Safe'');
          c0 = (if p = ''Phishing'' then probPhishing else jsub (Fin 1) probPhishing);
          c1 = (if c0 = NaN then Fin (1 / 2) else c0);
          c2 = jmax (Fin 0) (jmin (Fin 1) c1)
      in \<lparr>prediction = p, confidence = round2 c2, explanation = modelExplanation p\<rparr>)"

text \<open>\<open>None\<close> is the \<open>null\<close> that sends the caller to the rule engine.\<close>

definition predictWithModel :: "model option \<Rightarrow> string \<Rightarrow> result option" where
  "predictWithModel m text =
     (case m of
        None \<Rightarrow> None
      | Some md \<Rightarrow>
          (case vocab md of
             None \<Rightarrow> None
           | Some v \<Rightarrow>
               (case coef md of
                  None \<Rightarrow> None
                | Some cf \<Rightarrow>
                    (let i = toNumber (intercept md) in
                     if i = NaN then None
                     else
                       (let score = linearScore i cf (countWords v (tokenize text)) in
                        if score = NaN then None else Some (scoreResult score))))))"

subsection \<open>Regular expressions\<close>

text \<open>The constructs the program's patterns use. A class item is \<open>\w\<close>, \<open>\s\<close>, \<open>\d\<close>
  or one character; \<open>RSet True items\<close> is the negated class.\<close>

datatype cls = CWord | CSpace | CDigit | CChar char

fun inCls :: "cls \<Rightarrow> char \<Rightarrow> bool" where
  "inCls CWord c = isWordChar c"
| "inCls CSpace c = isSpaceChar c"
| "inCls CDigit c = isDigitChar c"
| "inCls (CChar d) c = (c = d)"

datatype rx =
    REps
  | RChr char
  | RSet bool "cls list"
  | RSeq rx rx
  | RAlt rx rx
  | RStar rx
  | RWordB
  | REnd

text \<open>A position in the subject: the character before it, if any, and the rest.\<close>

type_synonym mstate = "char option \<times> string"

fun wordBefore :: "char option \<Rightarrow> bool" where
  "wordBefore None = False"
| "wordBefore (Some c) = isWordChar c"

fun wordAfter :: "string \<Rightarrow> bool" where
  "wordAfter [] = False"
| "wordAfter (c # cs) = isWordChar c"

fun eat :: "(char \<Rightarrow> bool) \<Rightarrow> mstate \<Rightarrow> mstate list" where
  "eat p (prev, []) = []"
| "eat p (prev, c # cs) = (if p c then [(Some c, cs)] else [])"

text \<open>Greedy repetition: longer runs first, the empty run last. An iteration that consumes
  nothing is dropped, as the backtracking matcher does; the counter bounds the iterations
  by the length of the rest.\<close>

fun starIter :: "(mstate \<Rightarrow> mstate list) \<Rightarrow> nat \<Rightarrow> mstate \<Rightarrow> mstate list" where
  "starIter f 0 st = [st]"
| "starIter f (Suc n) st =
     concat (map (starIter f n) (filter (\<lambda>st'. length (snd st') < length (snd st)) (f st))) @ [st]"

text \<open>All the positions where a match that starts at the given position can end, in the
  order in which the backtracking matcher tries them. The flag is \<open>i\<close>: it compares
  canonical forms of characters. The classes of the patterns hold \<open>\w\<close>, \<open>\s\<close>, \<open>\d\<close>
  and characters that are not letters, for which the flag changes nothing.\<close>

primrec rmatch :: "rx \<Rightarrow> bool \<Rightarrow> mstate \<Rightarrow> mstate list" where
  "rmatch REps ci st = [st]"
| "rmatch (RChr d) ci st = eat (\<lambda>c. if ci then canonChar c = canonChar d else c = d) st"
| "rmatch (RSet neg items) ci st = eat (\<lambda>c. list_ex (\<lambda>i. inCls i c) items \<noteq> neg) st"
| "rmatch (RSeq a b) ci st = concat (map (rmatch b ci) (rmatch a ci st))"
| "rmatch (RAlt a b) ci st = rmatch a ci st @ rmatch b ci st"
| "rmatch (RStar a) ci st = starIter (rmatch a ci) (length (snd st)) st"
| "rmatch RWordB ci st = (if wordBefore (fst st) \<noteq> wordAfter (snd st) then [st] else [])"
| "rmatch REnd ci st = (if snd st = [] then [st] else [])"

text \<open>\<open>RegExp.prototype.test\<close> with \<open>lastIndex = 0\<close>: is there a match at some position?\<close>

fun search :: "rx \<Rightarrow> bool \<Rightarrow> char option \<Rightarrow> string \<Rightarrow> bool" where
  "search r ci prev [] = (rmatch r ci (prev, []) \<noteq> [])"
| "search r ci prev (c # cs) = (rmatch r ci (prev, c # cs) \<noteq> [] \<or> search r ci (Some c) cs)"

definition test :: "rx \<Rightarrow> bool \<Rightarrow> string \<Rightarrow> bool" where
  "test r ci s = search r ci None s"

text \<open>\<open>(text.match(r) || []).length\<close> for a pattern with the flag \<open>g\<close>: the matches from
  left to right, each search resuming where the last match ended (one character further
  after an empty match).\<close>

fun countMatches :: "rx \<Rightarrow> bool \<Rightarrow> char option \<Rightarrow> string \<Rightarrow> nat" where
  "countMatches r ci prev [] = (if rmatch r ci (prev, []) = [] then 0 else 1)"
| "countMatches r ci prev (c # cs) =
     (case rmatch r ci (prev, c # cs) of
        [] \<Rightarrow> countMatches r ci (Some c) cs
      | e # _ \<Rightarrow>
          (if length (snd e) < length (c # cs) then Suc (countMatches r ci (fst e) (snd e))
           else Suc (countMatches r ci (Some c) cs)))"

definition matchCount :: "rx \<Rightarrow> bool \<Rightarrow> string \<Rightarrow> nat" where
  "matchCount r ci s = countMatches r ci None s"

text \<open>Notation for the patterns.\<close>

fun lit :: "string \<Rightarrow> rx" where
  "lit [] = REps"
| "lit [c] = RChr c"
| "lit (c # cs) = RSeq (RChr c) (lit cs)"

fun seqs :: "rx list \<Rightarrow> rx" where
  "seqs [] = REps"
| "seqs [r] = r"
| "seqs (r # rs) = RSeq r (seqs rs)"

fun alts :: "rx list \<Rightarrow> rx" where
  "alts [] = RSet False []"
| "alts [r] = r"
| "alts (r # rs) = RAlt r (alts rs)"

definition opt :: "rx \<Rightarrow> rx" where
  "opt r = RAlt r REps"

definition plus_rx :: "rx \<Rightarrow> rx" where
  "plus_rx r = RSeq r (RStar r)"

text \<open>\<open>r{lo,hi}\<close>: \<open>lo\<close> copies, then up to \<open>hi - lo\<close> more.\<close>

fun upto_rx :: "rx \<Rightarrow> nat \<Rightarrow> rx" where
  "upto_rx r 0 = REps"
| "upto_rx r (Suc n) = opt (RSeq r (upto_rx r n))"

fun repeat_rx :: "rx \<Rightarrow> nat \<Rightarrow> nat \<Rightarrow> rx" where
  "repeat_rx r 0 hi = upto_rx r hi"
| "repeat_rx r (Suc lo) hi = RSeq r (repeat_rx r lo (hi - 1))"

definition whitespace :: rx where
  "whitespace = RSet False [CSpace]"

definition digit :: rx where
  "digit = RSet False [CDigit]"

definition spaces :: rx where
  "spaces = RStar whitespace"

subsection \<open>The patterns\<close>

text \<open>Each definition is the pattern of one regular expression literal of the source, in the
  source's order of alternatives. The flags and the subject (\<open>text\<close> or its lower-case
  copy \<open>lower\<close>) are given where the pattern is applied.\<close>

text \<open>Source line 72, flags \<open>gi\<close>, applied to \<open>lower\<close>.\<close>

definition URGENCY :: rx where
  "URGENCY =
     seqs [
       RWordB,
       alts [
         lit ''urgent'', lit ''immediately'', seqs [lit ''action'', spaces, lit ''required''],
         seqs [lit ''final'', spaces, lit ''notice''],
         seqs [lit ''last'', spaces, lit ''warning''],
         seqs [lit ''respond'', spaces, lit ''now''],
         seqs [lit ''within'', spaces, alts [lit ''24'', lit ''12''], spaces, lit ''hours''],
         seqs [lit ''time'', opt (lit ''-''), lit ''sensitive''],
         seqs [lit ''expires'', spaces, lit ''today''], lit ''deadline'',
         seqs [lit ''now'', spaces, lit ''or'', spaces, lit ''never''],
         seqs [lit ''failure'', spaces, lit ''to'', spaces, lit ''comply''],
         seqs [lit ''limited'', spaces, lit ''time''],
         seqs [lit ''pending'', spaces, lit ''suspension''], lit ''overdue'',
         seqs [
           lit ''must'', spaces, lit ''be'', spaces, lit ''reviewed'', spaces, lit ''today''],
         seqs [lit ''avoid'', spaces, lit ''penalties'']],
       RWordB]"

text \<open>Source line 76, flags \<open>gi\<close>, applied to \<open>lower\<close>.\<close>

definition THREATS :: rx where
  "THREATS =
     seqs [
       RWordB,
       alts [
         seqs [
           lit ''account'', spaces, alts [lit ''suspended'', lit ''locked'', lit ''closure'']],
         seqs [lit ''unauthorized'', spaces, lit ''access''],
         seqs [lit ''suspicious'', spaces, lit ''activity''],
         seqs [lit ''security'', spaces, lit ''breach''], lit ''compromised'',
         seqs [lit ''unusual'', spaces, lit ''activity''],
         seqs [lit ''violation'', spaces, lit ''detected''],
         seqs [lit ''policy'', spaces, lit ''violation''],
         seqs [lit ''permanent'', spaces, lit ''closure''],
         seqs [lit ''loss'', spaces, lit ''of'', spaces, alts [lit ''access'', lit ''funds'']],
         seqs [lit ''legal'', spaces, lit ''action''],
         seqs [lit ''report'', spaces, lit ''to'', spaces, lit ''authorities''],
         seqs [lit ''restricted'', spaces, lit ''access''],
         seqs [lit ''frozen'', spaces, lit ''funds''], lit ''penalties''],
       RWordB]"

text \<open>Source line 80, flags \<open>gi\<close>, applied to \<open>lower\<close>.\<close>

definition AUTHORITY :: rx where
  "AUTHORITY =
     seqs [
       RWordB,
       alts [
         seqs [
           lit ''security'', spaces,
           alts [lit ''team'', lit ''department'', lit ''operations'']],
         seqs [lit ''IT'', spaces, lit ''department''],
         seqs [lit ''support'', spaces, lit ''team''], lit ''administrator'',
         seqs [lit ''compliance'', spaces, lit ''office''],
         seqs [lit ''billing'', spaces, lit ''department''],
         seqs [lit ''accounting'', spaces, lit ''team''], lit ''payroll'',
         seqs [lit ''HR'', spaces, lit ''department''],
         seqs [lit ''secure'', spaces, alts [lit ''billing'', lit ''server'']],
         seqs [lit ''trusted'', spaces, lit ''partner'']],
       RWordB]"

text \<open>Source line 84, flags \<open>gi\<close>, applied to \<open>lower\<close>.\<close>

definition CREDENTIALS :: rx where
  "CREDENTIALS =
     seqs [
       RWordB,
       alts [
         seqs [
           lit ''verify'', spaces, opt (seqs [lit ''your'', spaces]),
           alts [lit ''identity'', lit ''account'', lit ''email'']],
         seqs [
           lit ''confirm'', spaces, opt (seqs [lit ''your'', spaces]),
           alts [lit ''account'', lit ''password'', lit ''email'', lit ''payment'']],
         seqs [lit ''re'', opt (lit ''-''), lit ''authenticate''],
         seqs [lit ''validate'', spaces, lit ''credentials''],
         seqs [lit ''login'', spaces, lit ''required''],
         seqs [lit ''sign'', spaces, lit ''in'', spaces, lit ''to'', spaces, lit ''continue''],
         seqs [lit ''update'', spaces, lit ''account'', spaces, lit ''information''],
         seqs [lit ''reset'', spaces, lit ''required''],
         seqs [lit ''security'', spaces, lit ''verification''],
         seqs [lit ''authentication'', spaces, lit ''failure''], lit ''password'',
         lit ''credentials'', seqs [lit ''social'', spaces, lit ''security''], lit ''ssn'',
         seqs [lit ''credit'', spaces, lit ''card''], lit ''cvv'',
         seqs [lit ''email'', spaces, lit ''and'', spaces, lit ''password'']],
       RWordB]"

text \<open>Source line 88, flags \<open>gi\<close>, applied to \<open>lower\<close>.\<close>

definition CTA :: rx where
  "CTA =
     seqs [
       RWordB,
       alts [
         seqs [
           lit ''click'', spaces,
           alts [lit ''here'', seqs [lit ''the'', spaces, lit ''link''], lit ''below'']],
         seqs [lit ''tap'', spaces, lit ''here''],
         seqs [lit ''open'', spaces, opt (seqs [lit ''the'', spaces]), lit ''attachment''],
         seqs [lit ''download'', spaces, lit ''now''],
         seqs [lit ''verify'', spaces, lit ''now''],
         seqs [lit ''confirm'', spaces, lit ''now''],
         seqs [lit ''update'', spaces, lit ''now''],
         seqs [lit ''review'', spaces, lit ''immediately''],
         seqs [lit ''access'', spaces, lit ''document''],
         seqs [lit ''restore'', spaces, lit ''access''],
         seqs [lit ''secure'', spaces, lit ''your'', spaces, lit ''account''],
         seqs [lit ''follow'', spaces, lit ''the'', spaces, lit ''instructions'']],
       RWordB]"

text \<open>Source line 92, flags \<open>gi\<close>, applied to \<open>lower\<close>.\<close>

definition FINANCIAL :: rx where
  "FINANCIAL =
     seqs [
       RWordB,
       alts [
         seqs [
           lit ''invoice'', spaces,
           alts [lit ''attached'', seqs [lit ''is'', spaces, lit ''overdue'']]],
         seqs [
           lit ''payment'', spaces, alts [lit ''required'', lit ''overdue'', lit ''pending'']],
         seqs [lit ''billing'', spaces, lit ''issue''],
         seqs [lit ''refund'', spaces, lit ''pending''],
         seqs [lit ''charge'', spaces, lit ''detected''],
         seqs [lit ''transaction'', spaces, lit ''failed''],
         seqs [lit ''wire'', spaces, lit ''transfer''],
         seqs [lit ''direct'', spaces, lit ''deposit'', spaces, lit ''update''],
         seqs [lit ''tax'', spaces, lit ''refund''],
         seqs [lit ''payroll'', spaces, lit ''update''],
         seqs [lit ''gift'', spaces, lit ''cards''], lit ''cryptocurrency''],
       RWordB]"

text \<open>Source line 96, flags \<open>gi\<close>, applied to \<open>lower\<close>.\<close>

definition ATTACHMENT :: rx where
  "ATTACHMENT =
     seqs [
       RWordB,
       alts [
         seqs [lit ''attached'', spaces, alts [lit ''document'', lit ''invoice'', lit ''file'']],
         seqs [lit ''see'', spaces, opt (seqs [lit ''the'', spaces]), lit ''attachment''],
         seqs [
           lit ''open'', spaces, opt (seqs [lit ''the'', spaces]),
           alts [lit ''attachment'', lit ''file'']],
         seqs [lit ''secure'', spaces, lit ''document''],
         seqs [lit ''encrypted'', spaces, lit ''attachment''],
         seqs [lit ''enable'', spaces, lit ''macros''],
         seqs [lit ''enable'', spaces, lit ''editing''],
         seqs [lit ''compressed'', spaces, lit ''file''],
         seqs [lit ''password'', opt (lit ''-''), lit ''protected'', spaces, lit ''file'']],
       RWordB]"

text \<open>Source line 100, flags \<open>i\<close>, applied to \<open>lower\<close>.\<close>

definition BAD_EXT :: rx where
  "BAD_EXT =
     alts [
       seqs [
         lit ''.'',
         alts [
           lit ''exe'', lit ''scr'', lit ''js'', lit ''iso'', lit ''img'', lit ''bat'',
           lit ''cmd'', lit ''vbs'', lit ''wsf''],
         alts [whitespace, REnd, RSet True [CWord]]],
       seqs [lit ''.'', alts [lit ''zip'', lit ''rar''], whitespace],
       seqs [
         lit ''invoice'', RStar (RSet False [CChar (CHR ''_''), CSpace]), plus_rx digit,
         lit ''.exe''],
       lit ''.pdf.exe'', seqs [lit ''double'', spaces, lit ''extension'']]"

text \<open>Source lines 101 and 158, flags \<open>i\<close>, applied to \<open>text\<close>.\<close>

definition EXE_EXT :: rx where
  "EXE_EXT =
     seqs [lit ''.exe'', RWordB]"

text \<open>Source line 104, flags \<open>i\<close>, applied to \<open>text\<close>.\<close>

definition SUSPICIOUS_TLD :: rx where
  "SUSPICIOUS_TLD =
     alts [
       seqs [
         lit ''.'',
         alts [
           lit ''ru'', lit ''tk'', lit ''ml'', lit ''ga'', lit ''cf'', lit ''gq'', lit ''xyz'',
           lit ''top'', lit ''cn''],
         RWordB],
       lit ''paypal-alerts'', lit ''secure-login-verify'', lit ''company-billing-support'',
       lit ''billing-support'', seqs [lit ''account'', spaces, lit ''closure''],
       seqs [lit ''loss'', spaces, lit ''of'', spaces, lit ''funds'']]"

text \<open>Source line 106, no flags, applied to \<open>text\<close>.\<close>

definition IP_IN_URL :: rx where
  "IP_IN_URL =
     seqs [
       lit ''http'', opt (lit ''s''), lit ''://'', repeat_rx digit 1 3, lit ''.'',
       repeat_rx digit 1 3, lit ''.'', repeat_rx digit 1 3, lit ''.'', repeat_rx digit 1 3]"

text \<open>Source line 108, flags \<open>i\<close>, applied to \<open>text\<close>.\<close>

definition SHORTENED :: rx where
  "SHORTENED =
     seqs [RWordB, alts [lit ''bit.ly'', lit ''tinyurl'', lit ''t.co'', lit ''goo.gl''], RWordB]"

text \<open>Source line 110, flags \<open>gi\<close>, applied to \<open>text\<close>.\<close>

definition LINK_PATTERN :: rx where
  "LINK_PATTERN =
     seqs [
       lit ''http'', opt (lit ''s''), lit ''://'',
       plus_rx (RSet True [CSpace, CChar (CHR ''<''), CChar (CHR ''>''), CChar (CHR 0x22), CChar (CHR 0x27)])]"

text \<open>Source line 115, flags \<open>gi\<close>, applied to \<open>lower\<close>.\<close>

definition COMPOSITE :: rx where
  "COMPOSITE =
     alts [
       seqs [
         lit ''verify'', spaces, opt (seqs [lit ''your'', spaces]), lit ''account'', spaces,
         lit ''immediately''],
       seqs [lit ''unusual'', spaces, lit ''activity'', spaces, lit ''detected''],
       seqs [
         lit ''failure'', spaces, lit ''to'', spaces, lit ''respond'', spaces, lit ''will'',
         spaces, lit ''result''],
       seqs [lit ''click'', spaces, lit ''below'', spaces, lit ''to'', spaces, lit ''restore''],
       seqs [
         lit ''login'', spaces, lit ''required'', spaces, lit ''to'', spaces, lit ''avoid'',
         spaces, lit ''suspension''],
       seqs [
         lit ''attached'', spaces, lit ''invoice'', spaces, opt (seqs [lit ''is'', spaces]),
         lit ''overdue''],
       seqs [
         lit ''confirm'', spaces, lit ''your'', spaces, lit ''identity'', spaces, lit ''to'',
         spaces, lit ''continue''],
       seqs [lit ''payment'', spaces, lit ''is'', spaces, lit ''overdue''],
       seqs [
         lit ''open'', spaces, lit ''the'', spaces, lit ''attachment'', spaces, lit ''and'',
         spaces, lit ''follow'']]"

text \<open>Source line 119, flags \<open>gi\<close>, applied to \<open>lower\<close>.\<close>

definition REWARD :: rx where
  "REWARD =
     seqs [
       RWordB,
       alts [
         seqs [lit ''free'', spaces, alts [lit ''money'', lit ''prize'', lit ''gift'']],
         lit ''winner'', lit ''congratulations'',
         seqs [
           lit ''you'', spaces, opt (seqs [lit ''have'', spaces]), lit ''been'', spaces,
           lit ''selected''],
         seqs [lit ''claim'', spaces, opt (seqs [lit ''your'', spaces]), lit ''reward'']],
       RWordB]"

text \<open>Source line 126, flags \<open>gi\<close>, applied to \<open>lower\<close>.\<close>

definition STRONG_LEGIT :: rx where
  "STRONG_LEGIT =
     alts [
       seqs [lit ''no further action '', opt (lit ''is ''), lit ''required''],
       seqs [lit ''no action '', opt (lit ''is ''), alts [lit ''needed'', lit ''required'']],
       lit ''informational purposes only'', lit ''no action items required'',
       lit ''there are no action items'',
       seqs [lit ''details are available '', alts [lit ''on'', lit ''at'']],
       seqs [lit ''you can review account activity '', opt (lit ''anytime'')],
       seqs [
         lit ''you can access '',
         alts [
           lit ''this file'', seqs [lit ''your '', opt (lit ''account ''), lit ''settings'']]]]"

text \<open>Source line 129, flags \<open>gi\<close>, applied to \<open>lower\<close>.\<close>

definition LEGIT_PHRASES :: rx where
  "LEGIT_PHRASES =
     alts [
       lit ''if this was you'', seqs [lit ''if this wasn'', RChr (CHR 0x27), lit ''t you''],
       lit ''you may ignore'', lit ''ignore this message'', lit ''no changes required'',
       seqs [
         opt (lit ''information is ''), lit ''already '',
         alts [lit ''changed'', lit ''correct'']],
       lit ''you can retry'', lit ''at your convenience'',
       seqs [lit ''visit your '', opt (lit ''bank ''), lit ''app or website''],
       lit ''visit your website'', lit ''unless your information is outdated'',
       seqs [
         lit ''you can review '', opt (lit ''account ''), lit ''activity '',
         opt (lit ''anytime'')],
       seqs [lit ''sign in through your bank'', RChr (CHR 0x27), lit ''s official website'']]"

text \<open>Source lines 132 and 168, flags \<open>i\<close>, applied to \<open>text\<close>.\<close>

definition CANONICAL_DOMAIN :: rx where
  "CANONICAL_DOMAIN =
     alts [
       lit ''account.microsoft.com'', lit ''account.google.com'',
       lit ''login.microsoftonline.com'', lit ''microsoft.com/'', lit ''google.com'',
       lit ''drive.google.com'', lit ''docusign.net'', lit ''chase.com'',
       seqs [lit ''.edu'', alts [lit ''/'', whitespace, REnd]], lit ''workday.'',
       lit ''it.university.edu'']"

text \<open>Source line 159, flags \<open>gi\<close>, applied to \<open>lower\<close>.\<close>

definition GOLD_PHRASES :: rx where
  "GOLD_PHRASES =
     alts [
       seqs [
         lit ''verify'', spaces, opt (seqs [lit ''your'', spaces]),
         alts [lit ''identity'', lit ''account''], spaces, lit ''immediately''],
       seqs [
         lit ''failure'', spaces, lit ''to'', spaces, lit ''respond'', spaces, lit ''will'',
         spaces, lit ''result''],
       seqs [lit ''click'', spaces, lit ''below'', spaces, lit ''to'', spaces, lit ''restore''],
       seqs [lit ''login'', spaces, lit ''required'', spaces, lit ''to'', spaces, lit ''avoid''],
       seqs [
         lit ''attached'', spaces, lit ''invoice'', spaces, opt (seqs [lit ''is'', spaces]),
         lit ''overdue''],
       seqs [
         lit ''open'', spaces, lit ''the'', spaces, lit ''attachment'', spaces, lit ''and'',
         spaces, lit ''follow''],
       seqs [
         lit ''confirm'', spaces, lit ''your'', spaces,
         alts [lit ''password'', lit ''identity'']]]"

text \<open>Source line 166, flags \<open>gi\<close>, applied to \<open>lower\<close>.\<close>

definition strongLegit_rx :: rx where
  "strongLegit_rx =
     alts [
       seqs [lit ''no further action '', opt (lit ''is ''), lit ''required''],
       seqs [lit ''no action '', opt (lit ''is ''), alts [lit ''needed'', lit ''required'']],
       lit ''informational purposes only'', lit ''no action items required'',
       lit ''there are no action items'',
       seqs [lit ''you can review account activity '', opt (lit ''anytime'')],
       seqs [
         lit ''you can access '',
         alts [
           lit ''this file'', seqs [lit ''your '', opt (lit ''account ''), lit ''settings'']]],
       lit ''details are available'']"

text \<open>Source line 167, flags \<open>gi\<close>, applied to \<open>lower\<close>.\<close>

definition legitPhrase_rx :: rx where
  "legitPhrase_rx =
     alts [
       lit ''if this was you'', seqs [lit ''if this wasn'', RChr (CHR 0x27), lit ''t you''],
       lit ''you may ignore'', lit ''no changes required'',
       seqs [lit ''already '', alts [lit ''changed'', lit ''correct'']], lit ''you can retry'',
       lit ''at your convenience'',
       seqs [lit ''visit your '', opt (lit ''bank ''), lit ''app or website''],
       seqs [lit ''sign in through your bank'', RChr (CHR 0x27), lit ''s official website'']]"

subsection \<open>The rule engine\<close>

text \<open>One statement \<open>if (c) { score += w; reasons.push(r); }\<close> is a signal: the condition
  as evaluated on the text, the weight and the reason. \<open>hit\<close> runs one statement on the
  running score and the reasons pushed so far; \<open>tally\<close> runs them in the order of the
  list.\<close>

type_synonym signal = "bool \<times> int \<times> string"

definition hit :: "signal \<Rightarrow> int \<times> string list \<Rightarrow> int \<times> string list" where
  "hit sig t = (case sig of (c, w, r) \<Rightarrow> if c then (fst t + w, snd t @ [r]) else t)"

definition tally :: "signal list \<Rightarrow> int \<times> string list" where
  "tally sigs = foldl (\<lambda>t sig. hit sig t) (0, []) sigs"

text \<open>Lines 71 to 120: the phishing signal groups.\<close>

definition phishingSignals :: "string \<Rightarrow> signal list" where
  "phishingSignals text =
     (let lower = toLowerCase text in
      [(test URGENCY True lower, 20, ''urgency or time pressure''),
       (test THREATS True lower, 25, ''threats or consequences''),
       (test AUTHORITY True lower, 15, ''authority or impersonation language''),
       (test CREDENTIALS True lower, 22, ''credential or verification request''),
       (test CTA True lower, 22, ''call-to-action (click/open/verify)''),
       (test FINANCIAL True lower, 20, ''financial or payment language''),
       (test ATTACHMENT True lower, 18, ''attachment or file instruction''),
       (test BAD_EXT True lower \<or> test EXE_EXT True text, 35,
          ''suspicious file extension (e.g. .exe)''),
       (test SUSPICIOUS_TLD True text, 28, ''suspicious domain or TLD''),
       (test IP_IN_URL False text, 25, ''link to an IP address''),
       (test SHORTENED True text, 12, ''shortened URL''),
       (3 < matchCount LINK_PATTERN True text, 10, ''multiple links''),
       (test COMPOSITE True lower, 25, ''high-risk phrase combination''),
       (test REWARD True lower, 18, ''prize or reward wording'')])"

text \<open>Lines 123 to 133: the legitimacy discriminators.\<close>

definition legitSignals :: "string \<Rightarrow> signal list" where
  "legitSignals text =
     (let lower = toLowerCase text in
      [(test STRONG_LEGIT True lower, 28, ''no action required / informational''),
       (test LEGIT_PHRASES True lower, 14, ''informational tone, optional action''),
       (test CANONICAL_DOMAIN True text, 18, ''canonical or trusted domain in link'')])"

text \<open>Lines 134 and 136: the score that decides.\<close>

definition ruleScore :: "string \<Rightarrow> int" where
  "ruleScore text =
     min 100 (max 0 (fst (tally (phishingSignals text)) - fst (tally (legitSignals text))))"

text \<open>\<open>reasons.join('; ')\<close>.\<close>

fun joinReasons :: "string list \<Rightarrow> string" where
  "joinReasons [] = []"
| "joinReasons [r] = r"
| "joinReasons (r # rs) = r @ ''; '' @ joinReasons rs"

definition ruleExplanation :: "string \<Rightarrow> string list \<Rightarrow> string list \<Rightarrow> string" where
  "ruleExplanation p reasons legitReasons =
     (if reasons = [] \<and> legitReasons = [] then ''No strong phishing patterns were found.''
      else if p = ''Safe'' \<and> legitReasons \<noteq> [] then
        (if reasons \<noteq> [] then ''Phishing-style signals were present; '' else '''') @
        ''legit discriminators (e.g. informational tone, trusted domain) reduced the score. '' @
        (if reasons \<noteq> [] then ''Signals: '' @ joinReasons reasons @ ''. '' else '''') @
        ''Legit: '' @ joinReasons legitReasons @
        ''. Still verify links and sender when in doubt.''
      else
        ''Signals detected: '' @ joinReasons reasons @ ''. '' @
        (if p = ''Phishing'' then ''Consider verifying the sender and avoiding links or attachments.''
         else ''Still verify important requests through official channels.''))"

definition analyzeWithRules :: "string \<Rightarrow> result" where
  "analyzeWithRules text =
     (let score = ruleScore text;
          c0 = jdiv (Fin (of_int score)) (Fin 100);
          p = (if score \<ge> 52 then ''Phishing'' else ''Safe'');
          c1 = (if p = ''Safe'' then jsub (Fin 1) c0 else c0)
      in \<lparr>prediction = p, confidence = round2 c1,
          explanation = ruleExplanation p (snd (tally (phishingSignals text)))
                          (snd (tally (legitSignals text)))\<rparr>)"

subsection \<open>The override and the entry point\<close>

definition hasGoldPhishSignals :: "string \<Rightarrow> bool" where
  "hasGoldPhishSignals text =
     (let lower = toLowerCase text in
      if test EXE_EXT True text then True
      else if test GOLD_PHRASES True lower then True
      else False)"

definition hasLegitDiscriminators :: "string \<Rightarrow> bool" where
  "hasLegitDiscriminators text =
     (let lower = toLowerCase text;
          strongLegit = test strongLegit_rx True lower;
          legitPhrase = test legitPhrase_rx True lower;
          canonicalDomain = test CANONICAL_DOMAIN True text
      in \<not> hasGoldPhishSignals text \<and> (strongLegit \<or> (legitPhrase \<and> canonicalDomain)))"

definition emptyResult :: result where
  "emptyResult =
     \<lparr>prediction = ''Safe'', confidence = Fin 0,
      explanation = ''No text provided. Paste email content to analyze.''\<rparr>"

definition overrideResult :: result where
  "overrideResult =
     \<lparr>prediction = ''Safe'', confidence = Fin (68 / 100),
      explanation =
        ''Phishing-style keywords were present, but strong legit framing (e.g. '' @ [CHR 0x22] @
        ''no action required'' @ [CHR 0x22] @
        '', informational tone) and no high-risk signals indicate a likely safe message. '' @
        ''Still verify links and sender when in doubt.''\<rparr>"

text \<open>Lines 177 and 178: the model's result if it gives one, else the rule engine's.\<close>

definition scorerResult :: "model option \<Rightarrow> string \<Rightarrow> result" where
  "scorerResult m text =
     (case predictWithModel m text of Some out \<Rightarrow> out | None \<Rightarrow> analyzeWithRules text)"

definition analyzeEmail :: "model option \<Rightarrow> string \<Rightarrow> result" where
  "analyzeEmail m emailText =
     (let text = trim emailText in
      if text = [] then emptyResult
      else
        (let out = scorerResult m text in
         if prediction out = ''Phishing'' \<and> hasLegitDiscriminators text then overrideResult
         else out))"

subsection \<open>The guards on the model's confidence\<close>

text \<open>Lines 52 to 56 as a function of the probability alone: the confidence of the predicted
  label, one half if that is not a number, clamped to the unit interval.\<close>

definition guarded :: "jsnum \<Rightarrow> jsnum" where
  "guarded p =
     (let c0 = (if jge p (Fin (1 / 2)) then p else jsub (Fin 1) p);
          c1 = (if c0 = NaN then Fin (1 / 2) else c0)
      in jmax (Fin 0) (jmin (Fin 1) c1))"

subsection \<open>The score as the specification words it\<close>

text \<open>What a list of signals contributes when each one gives its weight once if it fires
  and nothing otherwise.\<close>

definition weightSum :: "signal list \<Rightarrow> int" where
  "weightSum sigs = sum_list (map (\<lambda>sig. case sig of (c, w, r) \<Rightarrow> if c then w else 0) sigs)"

text \<open>The phishing groups with every group firing as soon as its pattern matches somewhere
  in the text: the link group too, whatever the number of links.\<close>

definition signalsByPattern :: "string \<Rightarrow> signal list" where
  "signalsByPattern text =
     (phishingSignals text)[11 := (test LINK_PATTERN True text, 10, ''multiple links'')]"

definition scoreByPattern :: "string \<Rightarrow> int" where
  "scoreByPattern text =
     min 100 (max 0 (weightSum (signalsByPattern text) - weightSum (legitSignals text)))"

subsection \<open>Where the extension pattern matches\<close>

text \<open>The strings that begin with a match of the pattern \<open>EXE_EXT\<close> under the flag
  \<open>i\<close>, spelled out.\<close>

fun exeAt :: "string \<Rightarrow> bool" where
  "exeAt (a # b # c # d # rest) =
     (a = CHR ''.'' \<and> canonChar b = CHR ''E'' \<and> canonChar c = CHR ''X'' \<and>
      canonChar d = CHR ''E'' \<and> \<not> wordAfter rest)"
| "exeAt s = False"

subsection \<open>The score as a table of conditions and weights\<close>

text \<open>What a table of groups contributes: each group its weight once if it fires, nothing
  otherwise.\<close>

definition contribution :: "(bool \<times> int) list \<Rightarrow> int" where
  "contribution gs = sum_list (map (\<lambda>g. case g of (fires, w) \<Rightarrow> if fires then w else 0) gs)"

subsection \<open>Doubles\<close>

text \<open>The program's numbers are IEEE 754 doubles. \<open>toDouble\<close> rounds a real to the nearest
  double, ties to the even significand, and to an infinity from \<open>2 ^ 1024\<close> on. The
  doubles around \<open>x\<close> are the multiples of \<open>ulp x\<close>: 53 significant bits, and multiples of
  \<open>2 powi -1074\<close> below the normal range. The sign of zero is not modelled; nothing in the
  scorer depends on it.\<close>

definition roundEven :: "real \<Rightarrow> int" where
  "roundEven x =
     (let f = \<lfloor>x\<rfloor>; d = x - of_int f in
      if d < 1 / 2 then f else if 1 / 2 < d then f + 1 else if even f then f else f + 1)"

definition binade :: "real \<Rightarrow> int" where
  "binade x = \<lfloor>log 2 \<bar>x\<bar>\<rfloor>"

definition ulp :: "real \<Rightarrow> real" where
  "ulp x = 2 powi (max (binade x - 52) (- 1074))"

definition toDouble :: "real \<Rightarrow> jsnum" where
  "toDouble x =
     (if x = 0 then Fin 0
      else
        (let y = of_int (roundEven (x / ulp x)) * ulp x in
         if 2 ^ 1024 \<le> \<bar>y\<bar> then (if x < 0 then NInf else PInf) else Fin y))"

text \<open>\<open>x + y\<close> and \<open>x * y\<close> on doubles: the exact result, rounded; the infinities and
  \<open>NaN\<close> as in \<open>jadd\<close> and \<open>jmul\<close>.\<close>

fun dadd :: "jsnum \<Rightarrow> jsnum \<Rightarrow> jsnum" where
  "dadd (Fin x) (Fin y) = toDouble (x + y)"
| "dadd x y = jadd x y"

fun dmul :: "jsnum \<Rightarrow> jsnum \<Rightarrow> jsnum" where
  "dmul (Fin x) (Fin y) = toDouble (x * y)"
| "dmul x y = jmul x y"

subsection \<open>Strings as numbers\<close>

text \<open>The value of a digit in bases up to 16.\<close>

definition digitValue :: "char \<Rightarrow> nat option" where
  "digitValue c =
     (let n = (of_char c :: nat) in
      if 48 \<le> n \<and> n \<le> 57 then Some (n - 48)
      else if 97 \<le> n \<and> n \<le> 102 then Some (n - 87)
      else if 65 \<le> n \<and> n \<le> 70 then Some (n - 55)
      else None)"

fun radixValue :: "nat \<Rightarrow> nat \<Rightarrow> string \<Rightarrow> nat option" where
  "radixValue b acc [] = Some acc"
| "radixValue b acc (c # cs) =
     (case digitValue c of
        None \<Rightarrow> None
      | Some d \<Rightarrow> if d < b then radixValue b (acc * b + d) cs else None)"

text \<open>One digit or more in the given base, and nothing else.\<close>

definition digitsValue :: "nat \<Rightarrow> string \<Rightarrow> nat option" where
  "digitsValue b s = (if s = [] then None else radixValue b 0 s)"

text \<open>\<open>0x\<close>, \<open>0o\<close> and \<open>0b\<close> literals; they take no sign.\<close>

definition parseNonDecimal :: "string \<Rightarrow> nat option" where
  "parseNonDecimal t =
     (case t of
        z # p # ds \<Rightarrow>
          if z \<noteq> CHR ''0'' then None
          else if p = CHR ''x'' \<or> p = CHR ''X'' then digitsValue 16 ds
          else if p = CHR ''o'' \<or> p = CHR ''O'' then digitsValue 8 ds
          else if p = CHR ''b'' \<or> p = CHR ''B'' then digitsValue 2 ds
          else None
      | _ \<Rightarrow> None)"

text \<open>What may follow the mantissa: nothing, or \<open>e\<close> or \<open>E\<close>, an optional sign and digits.\<close>

definition parseExponent :: "string \<Rightarrow> int option" where
  "parseExponent r =
     (case r of
        [] \<Rightarrow> Some 0
      | e # ds \<Rightarrow>
          if e \<noteq> CHR ''e'' \<and> e \<noteq> CHR ''E'' then None
          else
            (case ds of
               CHR ''-'' # ns \<Rightarrow> map_option (\<lambda>n. - int n) (digitsValue 10 ns)
             | CHR ''+'' # ns \<Rightarrow> map_option int (digitsValue 10 ns)
             | _ \<Rightarrow> map_option int (digitsValue 10 ds)))"

text \<open>An unsigned decimal literal: digits, an optional point with optional digits after it
  (a digit on at least one side of the point), an optional exponent. The literal \<open>(m, e)\<close>
  stands for \<open>m * 10 ^ e\<close>.\<close>

definition parseUnsigned :: "string \<Rightarrow> (nat \<times> int) option" where
  "parseUnsigned u =
     (let ip = takeWhile isDigitChar u;
          r1 = dropWhile isDigitChar u;
          fp = (case r1 of CHR ''.'' # t \<Rightarrow> takeWhile isDigitChar t | _ \<Rightarrow> []);
          r2 = (case r1 of CHR ''.'' # t \<Rightarrow> dropWhile isDigitChar t | _ \<Rightarrow> r1)
      in if ip = [] \<and> fp = [] then None
         else
           (case (digitsValue 10 (ip @ fp), parseExponent r2) of
              (Some m, Some e) \<Rightarrow> Some (m, e - int (length fp))
            | _ \<Rightarrow> None))"

text \<open>What a string reads as: no number, an infinity, or a signed literal.\<close>

datatype numeric = NotNumeric | Infinite bool | Literal bool nat int

definition readNumber :: "string \<Rightarrow> numeric" where
  "readNumber s =
     (let t = trim s in
      if t = [] then Literal False 0 0
      else
        (case parseNonDecimal t of
           Some n \<Rightarrow> Literal False n 0
         | None \<Rightarrow>
             (let neg = (case t of c # _ \<Rightarrow> c = CHR ''-'' | [] \<Rightarrow> False);
                  u = (case t of c # r \<Rightarrow> if c = CHR ''-'' \<or> c = CHR ''+'' then r else t | [] \<Rightarrow> t)
              in if u = ''Infinity'' then Infinite neg
                 else
                   (case parseUnsigned u of
                      None \<Rightarrow> NotNumeric
                    | Some (m, e) \<Rightarrow> Literal neg m e))))"

text \<open>\<open>Number(s)\<close> on a string: whitespace around the literal is dropped, the empty string
  is 0, a string that is no numeric literal is \<open>NaN\<close>, and the value of a literal is
  rounded to a double.\<close>

definition strToNumber :: "string \<Rightarrow> jsnum" where
  "strToNumber s =
     (case readNumber s of
        NotNumeric \<Rightarrow> NaN
      | Infinite neg \<Rightarrow> if neg then NInf else PInf
      | Literal neg m e \<Rightarrow> toDouble ((if neg then - 1 else 1) * real m * 10 powi e))"

subsection \<open>The model file as parsed\<close>

text \<open>\<open>model\<close> is \<open>null\<close> until the file arrives and then whatever \<open>JSON.parse\<close> made of
  it. A number is given by the value of its literal, which the program sees rounded to a
  double; the members of an object are in the order of the text.\<close>

datatype json =
    JNull
  | JBool bool
  | JNum real
  | JStr string
  | JArr "json list"
  | JObj "(string \<times> json) list"

text \<open>A call returns a value, throws a \<open>TypeError\<close>, or never returns.\<close>

datatype 'a outcome = Returns 'a | Throws | Diverges

text \<open>An own property of a parsed object: the last member of that name.\<close>

definition ownProp :: "(string \<times> json) list \<Rightarrow> string \<Rightarrow> json option" where
  "ownProp members k = map_of (rev members) k"

text \<open>\<open>model.vocab\<close>, \<open>model.coef\<close>, \<open>model.intercept\<close>: a member of an object,
  \<open>undefined\<close> (\<open>None\<close>) on every other value.\<close>

fun getField :: "json \<Rightarrow> string \<Rightarrow> json option" where
  "getField (JObj members) k = ownProp members k"
| "getField v k = None"

fun truthy :: "json \<Rightarrow> bool" where
  "truthy JNull = False"
| "truthy (JBool b) = b"
| "truthy (JNum x) = (toDouble x \<noteq> Fin 0)"
| "truthy (JStr s) = (s \<noteq> [])"
| "truthy (JArr xs) = True"
| "truthy (JObj members) = True"

fun truthyField :: "json option \<Rightarrow> bool" where
  "truthyField None = False"
| "truthyField (Some v) = truthy v"

text \<open>Conversion of an object to a primitive fails exactly when the object has a member
  named \<open>toString\<close> (a parsed value is never a function, so the member hides the inherited
  method); an array is converted by joining its elements, which converts each of them.\<close>

fun converts :: "json \<Rightarrow> bool" where
  "converts (JObj members) = (ownProp members ''toString'' = None)"
| "converts (JArr xs) = list_all converts xs"
| "converts v = True"

text \<open>The number of the string that an array element contributes to \<open>join\<close>, when it is the
  only element: \<open>null\<close> contributes the empty string, a number the string that reads back as
  the same number, an object without \<open>toString\<close> member \<open>[object Object]\<close>. Two elements
  or more are joined by a comma, which no numeric literal contains.\<close>

fun elementNumber :: "json \<Rightarrow> jsnum" where
  "elementNumber JNull = Fin 0"
| "elementNumber (JBool b) = NaN"
| "elementNumber (JNum x) = toDouble x"
| "elementNumber (JStr s) = strToNumber s"
| "elementNumber (JObj members) = NaN"
| "elementNumber (JArr []) = Fin 0"
| "elementNumber (JArr [x]) = elementNumber x"
| "elementNumber (JArr (x # y # zs)) = NaN"

text \<open>\<open>Number(v)\<close> on a parsed value or \<open>undefined\<close>.\<close>

fun jsNumber :: "json option \<Rightarrow> jsnum outcome" where
  "jsNumber None = Returns NaN"
| "jsNumber (Some JNull) = Returns (Fin 0)"
| "jsNumber (Some (JBool b)) = Returns (Fin (if b then 1 else 0))"
| "jsNumber (Some (JNum x)) = Returns (toDouble x)"
| "jsNumber (Some (JStr s)) = Returns (strToNumber s)"
| "jsNumber (Some (JObj members)) = (if converts (JObj members) then Returns NaN else Throws)"
| "jsNumber (Some (JArr xs)) = (if converts (JArr xs) then Returns (elementNumber (JArr xs)) else Throws)"

subsection \<open>The model scorer on any parsed model\<close>

text \<open>Lines 38 to 47 on an array \<open>vocab\<close> of any values: \<open>indexOf\<close> compares with \<open>===\<close>,
  so a word finds string elements only.\<close>

definition countWordParsed :: "json list \<Rightarrow> nat list \<Rightarrow> string \<Rightarrow> nat list" where
  "countWordParsed v counts w =
     (case indexOf v (JStr w) of
        Some idx \<Rightarrow> bump counts idx
      | None \<Rightarrow>
          (let s = stem w in
           if s \<noteq> w then (case indexOf v (JStr s) of Some idx \<Rightarrow> bump counts idx | None \<Rightarrow> counts)
           else counts))"

definition countWordsParsed :: "json list \<Rightarrow> string list \<Rightarrow> nat list" where
  "countWordsParsed v words = foldl (countWordParsed v) (replicate (length v) 0) words"

text \<open>\<open>model.coef[j]\<close>: an element of an array, a character of a string, the member
  of an object under the decimal name of \<open>j\<close>, and \<open>undefined\<close> on a number or \<open>true\<close>.\<close>

fun decimal :: "nat \<Rightarrow> string" where
  "decimal n =
     (if n < 10 then [char_of (48 + n)] else decimal (n div 10) @ [char_of (48 + n mod 10)])"

fun coefAt :: "json \<Rightarrow> nat \<Rightarrow> json option" where
  "coefAt (JArr xs) j = (if j < length xs then Some (xs ! j) else None)"
| "coefAt (JStr s) j = (if j < length s then Some (JStr [s ! j]) else None)"
| "coefAt (JObj members) j = ownProp members (decimal j)"
| "coefAt v j = None"

text \<open>The body of the loop of line 49 at index \<open>j\<close>; a \<open>TypeError\<close> ends the loop.\<close>

fun addTerm :: "json \<Rightarrow> nat list \<Rightarrow> jsnum outcome \<Rightarrow> nat \<Rightarrow> jsnum outcome" where
  "addTerm c counts (Returns score) j =
     (case jsNumber (coefAt c j) of
        Returns a \<Rightarrow> Returns (dadd score (dmul a (countAt counts j)))
      | Throws \<Rightarrow> Throws
      | Diverges \<Rightarrow> Diverges)"
| "addTerm c counts out j = out"

definition loopTo :: "json \<Rightarrow> nat list \<Rightarrow> jsnum \<Rightarrow> nat \<Rightarrow> jsnum outcome" where
  "loopTo c counts i n = foldl (addTerm c counts) (Returns i) [0..<n]"

text \<open>How often the loop runs for the bound \<open>n\<close>: while \<open>j < n\<close>. The counter is a double:
  it counts up to \<open>2 ^ 53\<close> and stays there, so a greater bound is never reached.\<close>

fun iterations :: "jsnum \<Rightarrow> nat" where
  "iterations (Fin x) = nat \<lceil>x\<rceil>"
| "iterations n = 0"

fun endless :: "jsnum \<Rightarrow> bool" where
  "endless PInf = True"
| "endless (Fin x) = (2 ^ 53 < x)"
| "endless n = False"

text \<open>Lines 48 and 49. The bound \<open>model.coef.length\<close> is the length of an array or of a
  string (which a script cannot make longer than \<open>2 ^ 53\<close>), the number of the member
  \<open>length\<close> of an object, and \<open>undefined\<close> on a number or \<open>true\<close>, where the loop does
  not run. A loop that does not end throws if one of its rounds does, and diverges
  otherwise.\<close>

definition linearScoreParsed :: "jsnum \<Rightarrow> json \<Rightarrow> nat list \<Rightarrow> jsnum outcome" where
  "linearScoreParsed i c counts =
     (case c of
        JArr xs \<Rightarrow> loopTo c counts i (length xs)
      | JStr s \<Rightarrow> loopTo c counts i (length s)
      | JObj members \<Rightarrow>
          (case jsNumber (ownProp members ''length'') of
             Throws \<Rightarrow> Throws
           | Diverges \<Rightarrow> Diverges
           | Returns n \<Rightarrow>
               if endless n then
                 (case loopTo c counts i (2 ^ 53 + 1) of Returns score \<Rightarrow> Diverges | out \<Rightarrow> out)
               else loopTo c counts i (iterations n))
      | _ \<Rightarrow> Returns i)"

text \<open>Lines 33 to 63 for any value of \<open>model\<close>.\<close>

definition predictWithModelParsed :: "json \<Rightarrow> string \<Rightarrow> result option outcome" where
  "predictWithModelParsed m text =
     (if \<not> truthy m \<or> \<not> truthyField (getField m ''vocab'') \<or> \<not> truthyField (getField m ''coef'')
      then Returns None
      else
        (case jsNumber (getField m ''intercept'') of
           Throws \<Rightarrow> Throws
         | Diverges \<Rightarrow> Diverges
         | Returns i \<Rightarrow>
             if i = NaN then Returns None
             else
               (case (getField m ''vocab'', getField m ''coef'') of
                  (Some (JArr v), Some c) \<Rightarrow>
                    (case linearScoreParsed i c (countWordsParsed v (tokenize text)) of
                       Throws \<Rightarrow> Throws
                     | Diverges \<Rightarrow> Diverges
                     | Returns score \<Rightarrow>
                         if score = NaN then Returns None else Returns (Some (scoreResult score)))
                | _ \<Rightarrow> Throws)))"

subsection \<open>The counts and the tokens as the specification words them\<close>

text \<open>The vocabulary index a token hits: its exact entry, else the entry of its stem.\<close>

definition hitIndex :: "json list \<Rightarrow> string \<Rightarrow> nat option" where
  "hitIndex v w =
     (case indexOf v (JStr w) of
        Some i \<Rightarrow> Some i
      | None \<Rightarrow> if stem w \<noteq> w then indexOf v (JStr (stem w)) else None)"

text \<open>For every vocabulary index, the number of tokens that hit it.\<close>

definition hitCounts :: "json list \<Rightarrow> string list \<Rightarrow> nat list" where
  "hitCounts v words = map (\<lambda>i. length (filter (\<lambda>w. hitIndex v w = Some i) words)) [0..<length v]"

text \<open>The intercept plus the sum of the products of coefficient and count, position by
  position, added from left to right in double arithmetic.\<close>

definition weightedSum :: "jsnum \<Rightarrow> jsnum list \<Rightarrow> nat list \<Rightarrow> jsnum" where
  "weightedSum b cs ns = foldl dadd b (map2 (\<lambda>c n. dmul c (Fin (real n))) cs ns)"

text \<open>A complete result: one of the two labels, a confidence between 0.5 and 1, and the
  explanation of the label.\<close>

definition complete :: "result \<Rightarrow> bool" where
  "complete r \<longleftrightarrow>
     (prediction r = ''Phishing'' \<or> prediction r = ''Safe'') \<and>
     (case confidence r of Fin c \<Rightarrow> 1 / 2 \<le> c \<and> c \<le> 1 | _ \<Rightarrow> False) \<and>
     explanation r = modelExplanation (prediction r)"

text \<open>The maximal runs of word characters, from left to right.\<close>

function wordRuns :: "string \<Rightarrow> string list" where
  "wordRuns [] = []"
| "wordRuns (c # cs) =
     (if isWordChar c then takeWhile isWordChar (c # cs) # wordRuns (dropWhile isWordChar cs)
      else wordRuns cs)"
  by pat_completeness auto
termination
  by (relation "measure length") (auto simp: le_imp_less_Suc length_dropWhile_le)

section \<open>Evaluation of the character functions\<close>

text \<open>The character functions decided on the eight bits of a character; the patterns are
  evaluated with these equations.\<close>

lemma isDigitChar_bits [code]:
  "isDigitChar (Char b0 b1 b2 b3 b4 b5 b6 b7) =
     (\<not> b7 \<and> \<not> b6 \<and> b5 \<and> b4 \<and> (\<not> b3 \<or> (\<not> b2 \<and> \<not> b1)))"
  by (cases b0; cases b1; cases b2; cases b3; cases b4; cases b5; cases b6; cases b7;
      simp add: isDigitChar_def)

lemma isWordChar_bits [code]:
  "isWordChar (Char b0 b1 b2 b3 b4 b5 b6 b7) =
     (\<not> b7 \<and>
      (if b6 then (b4 \<or> b3 \<or> b2 \<or> b1 \<or> b0) \<and> \<not> (b4 \<and> b3 \<and> (b2 \<or> (b1 \<and> b0)))
                  \<or> (\<not> b5 \<and> b4 \<and> b3 \<and> b2 \<and> b1 \<and> b0)
       else b5 \<and> b4 \<and> (\<not> b3 \<or> (\<not> b2 \<and> \<not> b1))))"
  by (cases b0; cases b1; cases b2; cases b3; cases b4; cases b5; cases b6; cases b7;
      simp add: isWordChar_def)

lemma isSpaceChar_bits [code]:
  "isSpaceChar (Char b0 b1 b2 b3 b4 b5 b6 b7) =
     (\<not> b6 \<and> \<not> b4 \<and>
      (if b5 then \<not> b3 \<and> \<not> b2 \<and> \<not> b1 \<and> \<not> b0
       else \<not> b7 \<and> b3 \<and> (if b2 then \<not> b1 else b1 \<or> b0)))"
  by (cases b0; cases b1; cases b2; cases b3; cases b4; cases b5; cases b6; cases b7;
      simp add: isSpaceChar_def)

lemma toLowerChar_bits [code]:
  "toLowerChar (Char b0 b1 b2 b3 b4 b5 b6 b7) =
     (if \<not> b5 \<and> b6 \<and>
         (if b7 then \<not> (b4 \<and> b2 \<and> b1 \<and> b0)
          else (b4 \<or> b3 \<or> b2 \<or> b1 \<or> b0) \<and> \<not> (b4 \<and> b3 \<and> (b2 \<or> (b1 \<and> b0))))
      then Char b0 b1 b2 b3 b4 True b6 b7 else Char b0 b1 b2 b3 b4 b5 b6 b7)"
  by (cases b0; cases b1; cases b2; cases b3; cases b4; cases b5; cases b6; cases b7;
      simp add: toLowerChar_def char_of_def bit_Suc_0_iff)

lemma canonChar_bits [code]:
  "canonChar (Char b0 b1 b2 b3 b4 b5 b6 b7) =
     (if b5 \<and> b6 \<and>
         (if b7 then \<not> (b4 \<and> b2 \<and> b1 \<and> b0)
          else (b4 \<or> b3 \<or> b2 \<or> b1 \<or> b0) \<and> \<not> (b4 \<and> b3 \<and> (b2 \<or> (b1 \<and> b0))))
      then Char b0 b1 b2 b3 b4 False b6 b7 else Char b0 b1 b2 b3 b4 b5 b6 b7)"
  by (cases b0; cases b1; cases b2; cases b3; cases b4; cases b5; cases b6; cases b7;
      simp add: canonChar_def char_of_def bit_Suc_0_iff)

section \<open>The stemmer\<close>

lemma sliceLast_suffix:
  assumes "length suf \<le> length w"
  shows "sliceLast (length suf) w = suf \<longleftrightarrow> suffix suf w"
proof
  assume "sliceLast (length suf) w = suf"
  then have "w = take (length w - length suf) w @ suf"
    by (metis append_take_drop_id sliceLast_def)
  then show "suffix suf w"
    by (metis suffixI)
next
  assume "suffix suf w"
  then obtain p where "w = p @ suf"
    by (auto simp: suffix_def)
  then show "sliceLast (length suf) w = suf"
    by (simp add: sliceLast_def)
qed

lemma sliceInit_suffix:
  assumes "suffix suf w"
  shows "w = sliceInit (length suf) w @ suf"
proof -
  from assms obtain p where "w = p @ suf"
    by (auto simp: suffix_def)
  then show ?thesis
    by (simp add: sliceInit_def)
qed

lemma stem_unfold:
  "stem w =
     (if length w < 4 then w
      else if 5 < length w \<and> suffix ''ing'' w then take (length w - 3) w
      else if 4 < length w \<and> suffix ''ed'' w then take (length w - 2) w
      else if 5 < length w \<and> suffix ''ly'' w then take (length w - 2) w
      else w)"
proof -
  have ing: "sliceLast 3 w = ''ing'' \<longleftrightarrow> suffix ''ing'' w" if "5 < length w"
    using that sliceLast_suffix [of "''ing''" w] by (simp add: numeral_3_eq_3)
  have ed: "sliceLast 2 w = ''ed'' \<longleftrightarrow> suffix ''ed'' w" if "4 < length w"
    using that sliceLast_suffix [of "''ed''" w] by (simp add: numeral_2_eq_2)
  have ly: "sliceLast 2 w = ''ly'' \<longleftrightarrow> suffix ''ly'' w" if "5 < length w"
    using that sliceLast_suffix [of "''ly''" w] by (simp add: numeral_2_eq_2)
  show ?thesis
    unfolding stem_def sliceInit_def using ing ed ly by auto
qed

lemma stem_one_suffix:
  "stem w = w \<or> w = stem w @ ''ing'' \<or> w = stem w @ ''ed'' \<or> w = stem w @ ''ly''"
proof -
  have "w = take (length w - 3) w @ ''ing''" if "suffix ''ing'' w"
    using sliceInit_suffix [OF that] by (simp add: sliceInit_def numeral_3_eq_3)
  moreover have "w = take (length w - 2) w @ ''ed''" if "suffix ''ed'' w"
    using sliceInit_suffix [OF that] by (simp add: sliceInit_def numeral_2_eq_2)
  moreover have "w = take (length w - 2) w @ ''ly''" if "suffix ''ly'' w"
    using sliceInit_suffix [OF that] by (simp add: sliceInit_def numeral_2_eq_2)
  ultimately show ?thesis
    unfolding stem_unfold by presburger
qed

text \<open>
  Claim C8. A token shorter than 4 characters is returned unchanged. Otherwise the first
  rule that applies decides, in this order: a token longer than 5 characters that ends in
  "ing" loses these three characters; a token longer than 4 characters that ends in "ed"
  loses these two; a token longer than 5 characters that ends in "ly" loses these two; any
  other token is returned unchanged. So at most one suffix is stripped: the token is the
  result, or the result followed by one of the three suffixes.
\<close>

theorem stem_first_matching_rule:
  "stem w =
     (if length w < 4 then w
      else if 5 < length w \<and> suffix ''ing'' w then take (length w - 3) w
      else if 4 < length w \<and> suffix ''ed'' w then take (length w - 2) w
      else if 5 < length w \<and> suffix ''ly'' w then take (length w - 2) w
      else w)
   \<and> (stem w = w \<or> w = stem w @ ''ing'' \<or> w = stem w @ ''ed'' \<or> w = stem w @ ''ly'')"
  using stem_unfold [of w] stem_one_suffix [of w] by blast

theorem stem_first_matching_rule_witness:
  "stem ''clicking'' = ''click'' \<and> stem ''suspended'' = ''suspend'' \<and> stem ''safely'' = ''safe''
   \<and> stem ''king'' = ''king'' \<and> stem ''used'' = ''used'' \<and> stem ''aired'' = ''air''
   \<and> stem ''red'' = ''red'' \<and> stem ''early'' = ''early''"
  using stem_first_matching_rule [of "''clicking''"] stem_first_matching_rule [of "''suspended''"]
    stem_first_matching_rule [of "''safely''"] stem_first_matching_rule [of "''king''"]
    stem_first_matching_rule [of "''used''"] stem_first_matching_rule [of "''aired''"]
    stem_first_matching_rule [of "''red''"] stem_first_matching_rule [of "''early''"]
  by (simp add: suffix_def)

section \<open>Rounding to hundredths\<close>

lemma round2_Fin: "round2 (Fin x) = Fin (of_int \<lfloor>x * 100 + 1 / 2\<rfloor> / 100)"
  by (simp add: round2_def)

lemma round2_hundredths: "round2 (Fin (of_int k / 100)) = Fin (of_int k / 100)"
proof -
  have "\<lfloor>(of_int k :: real) + 1 / 2\<rfloor> = k"
    by linarith
  then show ?thesis
    by (simp add: round2_Fin)
qed

lemma round2_half_one:
  assumes "1 / 2 \<le> x" and "x \<le> 1"
  shows "\<exists>c. round2 (Fin x) = Fin c \<and> 1 / 2 \<le> c \<and> c \<le> 1"
proof -
  have "50 \<le> \<lfloor>x * 100 + 1 / 2\<rfloor>" and "\<lfloor>x * 100 + 1 / 2\<rfloor> \<le> 100"
    using assms by linarith+
  then have "1 / 2 \<le> (of_int \<lfloor>x * 100 + 1 / 2\<rfloor> :: real) / 100"
    and "(of_int \<lfloor>x * 100 + 1 / 2\<rfloor> :: real) / 100 \<le> 1"
    by simp_all
  then show ?thesis
    unfolding round2_Fin by blast
qed

section \<open>The model scorer\<close>

text \<open>Whatever the logistic function returns, the guards leave a confidence between one
  half and one.\<close>

lemma guarded_range: "\<exists>y. guarded p = Fin y \<and> 1 / 2 \<le> y \<and> y \<le> 1"
proof (cases p)
  case NaN
  then have "guarded p = Fin (1 / 2)"
    by (simp add: guarded_def jmax_def jmin_def jsub_def)
  then show ?thesis
    by (intro exI [of _ "1 / 2"]) simp
next
  case PInf
  then have "guarded p = Fin 1"
    by (simp add: guarded_def jmax_def jmin_def jsub_def)
  then show ?thesis by simp
next
  case NInf
  then have "guarded p = Fin 1"
    by (simp add: guarded_def jmax_def jmin_def jsub_def)
  then show ?thesis by simp
next
  case (Fin x)
  then have "guarded p = Fin (if 1 / 2 \<le> x then min 1 x else min 1 (1 - x))"
    by (auto simp: guarded_def Let_def jmax_def jmin_def jsub_def min_def)
  then show ?thesis
    by (auto simp: min_def)
qed

lemma scoreResult_prediction:
  "prediction (scoreResult s) = ''Phishing'' \<or> prediction (scoreResult s) = ''Safe''"
  by (simp add: scoreResult_def Let_def)

lemma scoreResult_explanation:
  "explanation (scoreResult s) = modelExplanation (prediction (scoreResult s))"
  by (simp add: scoreResult_def Let_def)

lemma scoreResult_guarded: "confidence (scoreResult s) = round2 (guarded (sigmoid s))"
  by (auto simp: scoreResult_def guarded_def Let_def jsub_def)

lemma scoreResult_confidence:
  "\<exists>c. confidence (scoreResult s) = Fin c \<and> 1 / 2 \<le> c \<and> c \<le> 1"
proof -
  obtain y where "guarded (sigmoid s) = Fin y" and "1 / 2 \<le> y" and "y \<le> 1"
    using guarded_range by blast
  with round2_half_one [of y] show ?thesis
    by (simp add: scoreResult_guarded)
qed

lemma predictWithModel_Some:
  assumes "predictWithModel m text = Some r"
  shows "\<exists>s. r = scoreResult s"
  using assms
  by (auto simp: predictWithModel_def Let_def split: option.splits if_splits)

section \<open>The rule engine\<close>

lemma ruleScore_range: "0 \<le> ruleScore text \<and> ruleScore text \<le> 100"
  by (simp add: ruleScore_def)

lemma analyzeWithRules_prediction:
  "prediction (analyzeWithRules text) = (if 52 \<le> ruleScore text then ''Phishing'' else ''Safe'')"
  by (simp add: analyzeWithRules_def Let_def)

lemma analyzeWithRules_confidence:
  "confidence (analyzeWithRules text) =
     (if 52 \<le> ruleScore text then Fin (of_int (ruleScore text) / 100)
      else Fin (of_int (100 - ruleScore text) / 100))"
proof -
  have "round2 (Fin (1 - of_int (ruleScore text) / 100)) = Fin (of_int (100 - ruleScore text) / 100)"
    using round2_hundredths [of "100 - ruleScore text"] by (simp add: diff_divide_distrib)
  then show ?thesis
    by (simp add: analyzeWithRules_def Let_def jsub_def round2_hundredths)
qed

section \<open>Trimming\<close>

lemma trim_empty_iff: "trim s = [] \<longleftrightarrow> list_all isSpaceChar s"
proof -
  have "dropWhile isSpaceChar (rev (dropWhile isSpaceChar s)) = [] \<longleftrightarrow>
        dropWhile isSpaceChar s = []"
  proof
    assume a: "dropWhile isSpaceChar (rev (dropWhile isSpaceChar s)) = []"
    show "dropWhile isSpaceChar s = []"
    proof (rule ccontr)
      assume n: "dropWhile isSpaceChar s \<noteq> []"
      then have "\<not> isSpaceChar (hd (dropWhile isSpaceChar s))"
        by (rule hd_dropWhile)
      moreover have "hd (dropWhile isSpaceChar s) \<in> set (rev (dropWhile isSpaceChar s))"
        using n by simp
      ultimately show False
        using a by simp
    qed
  qed (auto dest: set_dropWhileD)
  then show ?thesis
    by (simp add: trim_def list_all_iff)
qed

section \<open>The entry point\<close>

lemma scorerResult_prediction:
  "prediction (scorerResult m text) = ''Phishing'' \<or> prediction (scorerResult m text) = ''Safe''"
proof (cases "predictWithModel m text")
  case None
  then show ?thesis
    by (simp add: scorerResult_def analyzeWithRules_prediction)
next
  case (Some r)
  then show ?thesis
    using predictWithModel_Some [OF Some] scoreResult_prediction
    by (auto simp: scorerResult_def)
qed

lemma analyzeWithRules_confidence_bounds:
  "\<exists>c. confidence (analyzeWithRules text) = Fin c \<and> 49 / 100 \<le> c \<and> c \<le> 1 \<and>
       (if prediction (analyzeWithRules text) = ''Safe'' then 49 / 100 \<le> c else 52 / 100 \<le> c)"
proof -
  have r: "0 \<le> ruleScore text" "ruleScore text \<le> 100"
    using ruleScore_range by simp_all
  show ?thesis
  proof (cases "52 \<le> ruleScore text")
    case True
    with r show ?thesis
      by (intro exI [of _ "of_int (ruleScore text) / 100"])
         (simp add: analyzeWithRules_confidence analyzeWithRules_prediction)
  next
    case False
    with r show ?thesis
      by (intro exI [of _ "of_int (100 - ruleScore text) / 100"])
         (simp add: analyzeWithRules_confidence analyzeWithRules_prediction)
  qed
qed

lemma scorerResult_confidence:
  "\<exists>c. confidence (scorerResult m text) = Fin c \<and> 49 / 100 \<le> c \<and> c \<le> 1"
proof (cases "predictWithModel m text")
  case None
  then show ?thesis
    using analyzeWithRules_confidence_bounds [of "text"] by (auto simp: scorerResult_def)
next
  case (Some r)
  then obtain s where "r = scoreResult s"
    using predictWithModel_Some by blast
  moreover obtain c where "confidence (scoreResult s) = Fin c" and "1 / 2 \<le> c" and "c \<le> 1"
    using scoreResult_confidence by blast
  ultimately show ?thesis
    using Some by (auto simp: scorerResult_def)
qed

lemma emptyResult_fields:
  "prediction emptyResult = ''Safe''" "confidence emptyResult = Fin 0"
  by (simp_all add: emptyResult_def)

lemma overrideResult_fields:
  "prediction overrideResult = ''Safe''" "confidence overrideResult = Fin (68 / 100)"
  by (simp_all add: overrideResult_def)

lemma analyzeEmail_cases:
  "analyzeEmail m text = emptyResult \<and> trim text = [] \<or>
   analyzeEmail m text = overrideResult \<and> trim text \<noteq> [] \<or>
   analyzeEmail m text = scorerResult m (trim text) \<and> trim text \<noteq> []"
  by (simp add: analyzeEmail_def Let_def)

section \<open>Claims about the result\<close>

text \<open>
  Claim C1. For every input string and every state of the model, the result of
  \<open>analyzeEmail\<close> has the prediction "Phishing" or "Safe" and a confidence that is a
  number between 0 and 1.
\<close>

theorem analyzeEmail_prediction_confidence:
  "(prediction (analyzeEmail m text) = ''Phishing'' \<or> prediction (analyzeEmail m text) = ''Safe'')
   \<and> (\<exists>c. confidence (analyzeEmail m text) = Fin c \<and> 0 \<le> c \<and> c \<le> 1)"
proof -
  let ?ok = "\<lambda>r. (prediction r = ''Phishing'' \<or> prediction r = ''Safe'')
                \<and> (\<exists>c. confidence r = Fin c \<and> 0 \<le> c \<and> c \<le> 1)"
  have e: "?ok emptyResult"
    by (simp add: emptyResult_fields)
  have "\<exists>c. Fin (68 / 100) = Fin c \<and> 0 \<le> c \<and> c \<le> 1"
    by (intro exI [of _ "68 / 100"]) simp
  then have o: "?ok overrideResult"
    by (simp add: overrideResult_fields)
  obtain c where "confidence (scorerResult m (trim text)) = Fin c" and "49 / 100 \<le> c" and "c \<le> 1"
    using scorerResult_confidence by blast
  then have "\<exists>c. confidence (scorerResult m (trim text)) = Fin c \<and> 0 \<le> c \<and> c \<le> 1"
    by (intro exI [of _ c]) simp
  then have s: "?ok (scorerResult m (trim text))"
    using scorerResult_prediction [of m "trim text"] by simp
  from analyzeEmail_cases [of m "text"] e o s show ?thesis
    by metis
qed

theorem analyzeEmail_prediction_confidence_witness:
  "(prediction (analyzeEmail None ''hello'') = ''Phishing'' \<or>
    prediction (analyzeEmail None ''hello'') = ''Safe'')
   \<and> (\<exists>c. confidence (analyzeEmail None ''hello'') = Fin c \<and> 0 \<le> c \<and> c \<le> 1)"
  by (rule analyzeEmail_prediction_confidence)

text \<open>
  Claim C4. For an input that is empty or consists of whitespace only, \<open>analyzeEmail\<close>
  returns the prediction "Safe", the confidence 0 and the explanation that no text was
  provided. The result is the same for every state of the model: no scorer has a say.
\<close>

theorem analyzeEmail_blank_input:
  assumes "list_all isSpaceChar text"
  shows "analyzeEmail m text =
     \<lparr>prediction = ''Safe'', confidence = Fin 0,
      explanation = ''No text provided. Paste email content to analyze.''\<rparr>"
  using assms by (simp add: analyzeEmail_def trim_empty_iff emptyResult_def)

theorem analyzeEmail_blank_input_witness:
  "list_all isSpaceChar [CHR '' '', CHR 0x09, CHR 0x0A, CHR 0xA0] \<and>
   analyzeEmail (Some \<lparr>vocab = Some [''click''], coef = Some [Fin 1], intercept = Some (Fin 0)\<rparr>)
     [CHR '' '', CHR 0x09, CHR 0x0A, CHR 0xA0] =
     \<lparr>prediction = ''Safe'', confidence = Fin 0,
      explanation = ''No text provided. Paste email content to analyze.''\<rparr> \<and>
   analyzeEmail None [] =
     \<lparr>prediction = ''Safe'', confidence = Fin 0,
      explanation = ''No text provided. Paste email content to analyze.''\<rparr>"
proof -
  have blank: "list_all isSpaceChar [CHR '' '', CHR 0x09, CHR 0x0A, CHR 0xA0]"
    by (simp add: isSpaceChar_bits)
  have none: "list_all isSpaceChar []"
    by simp
  show ?thesis
    using blank analyzeEmail_blank_input [OF blank] analyzeEmail_blank_input [OF none]
    by simp
qed

text \<open>
  Claim C5. The rule engine predicts "Phishing" exactly when its clamped score is 52 or
  more and "Safe" when it is 51 or less. The confidence it returns is score/100 for
  "Phishing" and 1 - score/100 for "Safe", rounded to two decimals; the score being a
  whole number between 0 and 100, the rounding changes nothing.
\<close>

theorem analyzeWithRules_threshold:
  "prediction (analyzeWithRules text) = (if 52 \<le> ruleScore text then ''Phishing'' else ''Safe'')
   \<and> confidence (analyzeWithRules text) =
       round2 (if prediction (analyzeWithRules text) = ''Phishing''
               then Fin (of_int (ruleScore text) / 100)
               else Fin (1 - of_int (ruleScore text) / 100))
   \<and> confidence (analyzeWithRules text) =
       (if 52 \<le> ruleScore text then Fin (of_int (ruleScore text) / 100)
        else Fin (1 - of_int (ruleScore text) / 100))
   \<and> 0 \<le> ruleScore text \<and> ruleScore text \<le> 100"
proof -
  have "round2 (Fin (1 - of_int (ruleScore text) / 100)) = Fin (1 - of_int (ruleScore text) / 100)"
    using round2_hundredths [of "100 - ruleScore text"] by (simp add: diff_divide_distrib)
  then show ?thesis
    using ruleScore_range [of "text"]
    by (simp add: analyzeWithRules_prediction analyzeWithRules_confidence round2_hundredths
        diff_divide_distrib)
qed

text \<open>
  Claim C10. Whenever the trimmed input is not empty, the confidence that \<open>analyzeEmail\<close>
  returns is at least 0.49. Stage by stage: the rule engine returns at least 0.49 with
  "Safe" and at least 0.52 with "Phishing"; the model scorer returns at least 0.5; the
  override returns 0.68. Only the empty input gets a lower confidence, namely 0.
\<close>

theorem analyzeEmail_confidence_floor:
  "(trim text \<noteq> [] \<longrightarrow> (\<exists>c. confidence (analyzeEmail m text) = Fin c \<and> 49 / 100 \<le> c))
   \<and> (\<exists>c. confidence (analyzeWithRules text) = Fin c \<and>
          (if prediction (analyzeWithRules text) = ''Safe'' then 49 / 100 \<le> c else 52 / 100 \<le> c))
   \<and> (\<forall>r. predictWithModel m text = Some r \<longrightarrow> (\<exists>c. confidence r = Fin c \<and> 1 / 2 \<le> c))
   \<and> confidence overrideResult = Fin (68 / 100)
   \<and> (trim text = [] \<longrightarrow> confidence (analyzeEmail m text) = Fin 0)"
proof (intro conjI impI allI)
  assume n: "trim text \<noteq> []"
  obtain c where c: "confidence (scorerResult m (trim text)) = Fin c" "49 / 100 \<le> c"
    using scorerResult_confidence by blast
  have "\<exists>c. Fin (68 / 100) = Fin c \<and> 49 / 100 \<le> c"
    by (intro exI [of _ "68 / 100"]) simp
  then have o: "\<exists>c. confidence overrideResult = Fin c \<and> 49 / 100 \<le> c"
    by (simp add: overrideResult_fields)
  from analyzeEmail_cases [of m "text"] n c o
  show "\<exists>c. confidence (analyzeEmail m text) = Fin c \<and> 49 / 100 \<le> c"
    by metis
next
  show "\<exists>c. confidence (analyzeWithRules text) = Fin c \<and>
          (if prediction (analyzeWithRules text) = ''Safe'' then 49 / 100 \<le> c else 52 / 100 \<le> c)"
    using analyzeWithRules_confidence_bounds [of "text"] by blast
next
  fix r
  assume "predictWithModel m text = Some r"
  then obtain s where r: "r = scoreResult s"
    using predictWithModel_Some by blast
  show "\<exists>c. confidence r = Fin c \<and> 1 / 2 \<le> c"
    unfolding r using scoreResult_confidence [of s] by blast
next
  show "confidence overrideResult = Fin (68 / 100)"
    by (rule overrideResult_fields)
next
  assume "trim text = []"
  then show "confidence (analyzeEmail m text) = Fin 0"
    by (simp add: analyzeEmail_def emptyResult_fields)
qed

section \<open>Concrete runs\<close>

lemma ruleScore_at_52: "ruleScore ''bit.ly ssn winner'' = 52"
  by code_simp

lemma ruleScore_at_51: "ruleScore ''winner payroll enable macros'' = 51"
  by code_simp

lemma trim_at_51: "trim ''winner payroll enable macros'' = ''winner payroll enable macros''"
  by code_simp

theorem analyzeWithRules_threshold_witness:
  "ruleScore ''bit.ly ssn winner'' = 52 \<and>
   prediction (analyzeWithRules ''bit.ly ssn winner'') = ''Phishing'' \<and>
   confidence (analyzeWithRules ''bit.ly ssn winner'') = Fin (52 / 100) \<and>
   ruleScore ''winner payroll enable macros'' = 51 \<and>
   prediction (analyzeWithRules ''winner payroll enable macros'') = ''Safe'' \<and>
   confidence (analyzeWithRules ''winner payroll enable macros'') = Fin (49 / 100)"
proof -
  note a = analyzeWithRules_threshold [of "''bit.ly ssn winner''", unfolded ruleScore_at_52]
  note b = analyzeWithRules_threshold [of "''winner payroll enable macros''", unfolded ruleScore_at_51]
  have a1: "prediction (analyzeWithRules ''bit.ly ssn winner'') = ''Phishing''"
    using a [THEN conjunct1] by simp
  have a2: "confidence (analyzeWithRules ''bit.ly ssn winner'') = Fin (52 / 100)"
    using a [THEN conjunct2, THEN conjunct2, THEN conjunct1] by simp
  have b1: "prediction (analyzeWithRules ''winner payroll enable macros'') = ''Safe''"
    using b [THEN conjunct1] by simp
  have b2: "confidence (analyzeWithRules ''winner payroll enable macros'') = Fin (49 / 100)"
    using b [THEN conjunct2, THEN conjunct2, THEN conjunct1] by simp
  from a1 a2 b1 b2 show ?thesis
    by (simp add: ruleScore_at_52 ruleScore_at_51)
qed

theorem analyzeEmail_confidence_floor_witness:
  "trim ''winner payroll enable macros'' \<noteq> [] \<and>
   (\<exists>c. confidence (analyzeEmail None ''winner payroll enable macros'') = Fin c \<and> 49 / 100 \<le> c) \<and>
   confidence (analyzeEmail None ''winner payroll enable macros'') = Fin (49 / 100)"
proof -
  have n: "trim ''winner payroll enable macros'' \<noteq> []"
    by (simp add: trim_at_51)
  have "prediction (analyzeWithRules ''winner payroll enable macros'') = ''Safe''"
    and "confidence (analyzeWithRules ''winner payroll enable macros'') = Fin (49 / 100)"
    by (simp_all add: analyzeWithRules_prediction analyzeWithRules_confidence ruleScore_at_51)
  then have v: "confidence (analyzeEmail None ''winner payroll enable macros'') = Fin (49 / 100)"
    by (simp add: analyzeEmail_def trim_at_51 scorerResult_def predictWithModel_def)
  from n v analyzeEmail_confidence_floor [of "''winner payroll enable macros''" None]
  show ?thesis
    by blast
qed

section \<open>The extension pattern and trimming\<close>

lemma search_from:
  assumes "rmatch r ci (if pre = [] then prev else Some (last pre), s) \<noteq> []"
  shows "search r ci prev (pre @ s)"
  using assms
proof (induction pre arbitrary: prev)
  case Nil
  then show ?case by (cases s) simp_all
next
  case (Cons c pre)
  have "search r ci (Some c) (pre @ s)"
    using Cons.prems by (intro Cons.IH) (simp split: if_splits)
  then show ?case by simp
qed

lemma char_facts_bits:
  fixes b0 b1 b2 b3 b4 b5 b6 b7 :: bool
  defines "c \<equiv> Char b0 b1 b2 b3 b4 b5 b6 b7"
  shows "(isSpaceChar c \<longrightarrow>
            c \<noteq> CHR ''.'' \<and> canonChar c \<noteq> CHR ''E'' \<and> canonChar c \<noteq> CHR ''X'' \<and> \<not> isWordChar c)
         \<and> (canonChar c = CHR ''E'' \<longrightarrow> isWordChar c)
         \<and> (canonChar c = CHR ''.'' \<longleftrightarrow> c = CHR ''.'')
         \<and> isSpaceChar (toLowerChar c) = isSpaceChar c"
  unfolding c_def
  by (cases b0; cases b1; cases b2; cases b3; cases b4; cases b5; cases b6; cases b7;
      simp add: isSpaceChar_bits isWordChar_bits canonChar_bits toLowerChar_bits)

lemma char_facts:
  "(isSpaceChar c \<longrightarrow>
      c \<noteq> CHR ''.'' \<and> canonChar c \<noteq> CHR ''E'' \<and> canonChar c \<noteq> CHR ''X'' \<and> \<not> isWordChar c)
   \<and> (canonChar c = CHR ''E'' \<longrightarrow> isWordChar c)
   \<and> (canonChar c = CHR ''.'' \<longleftrightarrow> c = CHR ''.'')
   \<and> isSpaceChar (toLowerChar c) = isSpaceChar c"
proof (cases c)
  case (Char b0 b1 b2 b3 b4 b5 b6 b7)
  show ?thesis
    unfolding Char by (rule char_facts_bits)
qed

lemma space_not_dot: "isSpaceChar c \<Longrightarrow> c \<noteq> CHR ''.''"
  using char_facts [of c] by blast

lemma space_not_E: "isSpaceChar c \<Longrightarrow> canonChar c \<noteq> CHR ''E''"
  using char_facts [of c] by blast

lemma space_not_X: "isSpaceChar c \<Longrightarrow> canonChar c \<noteq> CHR ''X''"
  using char_facts [of c] by blast

lemma canon_E_word: "canonChar c = CHR ''E'' \<Longrightarrow> isWordChar c"
  using char_facts [of c] by blast

lemma canon_dot: "canonChar c = CHR ''.'' \<longleftrightarrow> c = CHR ''.''"
  using char_facts [of c] by blast

lemma space_toLower: "isSpaceChar (toLowerChar c) = isSpaceChar c"
  using char_facts [of c] by blast

lemma rmatch_EXE_EXT: "rmatch EXE_EXT True (p, s) \<noteq> [] \<longleftrightarrow> exeAt s"
proof (cases s rule: exeAt.cases)
  case (1 a b c d rest)
  then show ?thesis
    by (auto simp: EXE_EXT_def canon_E_word canon_dot canonChar_bits)
qed (simp_all add: EXE_EXT_def)

lemma exeAt_space: "isSpaceChar w \<Longrightarrow> \<not> exeAt (w # s)"
  by (cases "w # s" rule: exeAt.cases) (auto simp: space_not_dot)

lemma short_or_long:
  fixes s :: string
  obtains "s = []" | a where "s = [a]" | a b where "s = [a, b]" | a b c where "s = [a, b, c]"
    | a b c d rest where "s = a # b # c # d # rest"
  by (cases s rule: exeAt.cases) auto

lemma exeAt_snoc:
  assumes "isSpaceChar w" and "exeAt (s @ [w])"
  shows "exeAt s"
proof (cases s rule: short_or_long)
  case 1
  with assms show ?thesis by simp
next
  case (2 a)
  with assms show ?thesis by simp
next
  case (3 a b)
  with assms show ?thesis by (simp add: space_not_X)
next
  case (4 a b c)
  with assms show ?thesis by (simp add: space_not_E)
next
  case (5 a b c d rest)
  with assms show ?thesis
    by (cases rest) auto
qed

lemma search_EXE_prev: "search EXE_EXT True p s = search EXE_EXT True q s"
  by (cases s) (simp_all add: rmatch_EXE_EXT)

lemma search_EXE_dropWhile:
  "search EXE_EXT True p (dropWhile isSpaceChar s) = search EXE_EXT True p s"
proof (induction s arbitrary: p)
  case Nil
  show ?case by simp
next
  case (Cons c s)
  show ?case
  proof (cases "isSpaceChar c")
    case True
    then have "search EXE_EXT True p (dropWhile isSpaceChar (c # s)) =
               search EXE_EXT True p (dropWhile isSpaceChar s)"
      by simp
    also have "\<dots> = search EXE_EXT True (Some c) (dropWhile isSpaceChar s)"
      by (rule search_EXE_prev)
    also have "\<dots> = search EXE_EXT True (Some c) s"
      by (rule Cons.IH)
    also have "\<dots> = search EXE_EXT True p (c # s)"
      using True by (simp add: rmatch_EXE_EXT exeAt_space)
    finally show ?thesis .
  next
    case False
    then show ?thesis by simp
  qed
qed

lemma search_EXE_snoc:
  assumes "isSpaceChar w" and "search EXE_EXT True p (s @ [w])"
  shows "search EXE_EXT True p s"
  using assms(2)
proof (induction s arbitrary: p)
  case Nil
  with assms(1) show ?case
    by (simp add: rmatch_EXE_EXT)
next
  case (Cons c s)
  from Cons.prems have "exeAt ((c # s) @ [w]) \<or> search EXE_EXT True (Some c) (s @ [w])"
    by (simp add: rmatch_EXE_EXT)
  then show ?case
  proof
    assume "exeAt ((c # s) @ [w])"
    then have "exeAt (c # s)"
      using assms(1) exeAt_snoc by blast
    then show ?thesis
      by (simp add: rmatch_EXE_EXT)
  next
    assume "search EXE_EXT True (Some c) (s @ [w])"
    then have "search EXE_EXT True (Some c) s"
      by (rule Cons.IH)
    then show ?thesis by simp
  qed
qed

lemma search_EXE_trailing:
  assumes "list_all isSpaceChar ws" and "search EXE_EXT True p (s @ ws)"
  shows "search EXE_EXT True p s"
  using assms
proof (induction ws arbitrary: s)
  case Nil
  then show ?case by simp
next
  case (Cons w ws)
  from Cons.prems(1) have ws: "list_all isSpaceChar ws" and w: "isSpaceChar w"
    by simp_all
  from Cons.prems(2) have "search EXE_EXT True p ((s @ [w]) @ ws)"
    by simp
  with ws have "search EXE_EXT True p (s @ [w])"
    by (rule Cons.IH)
  with w show ?case
    by (rule search_EXE_snoc)
qed

lemma trim_decompose:
  "\<exists>ws. list_all isSpaceChar ws \<and> dropWhile isSpaceChar s = trim s @ ws"
proof -
  let ?d = "dropWhile isSpaceChar s"
  have "rev ?d = takeWhile isSpaceChar (rev ?d) @ dropWhile isSpaceChar (rev ?d)"
    by simp
  then have "?d = rev (dropWhile isSpaceChar (rev ?d)) @ rev (takeWhile isSpaceChar (rev ?d))"
    by (metis rev_append rev_rev_ident)
  moreover have "list_all isSpaceChar (rev (takeWhile isSpaceChar (rev ?d)))"
    by (auto simp: list_all_iff dest: set_takeWhileD)
  ultimately show ?thesis
    unfolding trim_def by blast
qed

lemma test_EXE_trim:
  assumes "test EXE_EXT True s"
  shows "test EXE_EXT True (trim s)"
proof -
  obtain ws where ws: "list_all isSpaceChar ws" "dropWhile isSpaceChar s = trim s @ ws"
    using trim_decompose by blast
  from assms have "search EXE_EXT True None (dropWhile isSpaceChar s)"
    by (simp add: test_def search_EXE_dropWhile)
  then have "search EXE_EXT True None (trim s @ ws)"
    by (simp add: ws(2))
  with ws(1) have "search EXE_EXT True None (trim s)"
    by (rule search_EXE_trailing)
  then show ?thesis
    by (simp add: test_def)
qed


lemma test_EXE_nonempty: "test EXE_EXT True s \<Longrightarrow> s \<noteq> []"
  by (auto simp: test_def rmatch_EXE_EXT)

text \<open>
  Claim C2. If the input contains a match of the extension pattern (a dot, "exe" in any
  case, then a word boundary), the trimmed text has a gold signal, the legitimacy test
  fails and \<open>analyzeEmail\<close> returns what the scorer stage chose, whatever legitimacy
  phrasing the text contains and whatever the state of the model.
\<close>

theorem exe_reference_blocks_override:
  assumes "test EXE_EXT True emailText"
  shows "hasGoldPhishSignals (trim emailText) \<and> \<not> hasLegitDiscriminators (trim emailText)
         \<and> analyzeEmail m emailText = scorerResult m (trim emailText)"
proof -
  have t: "test EXE_EXT True (trim emailText)"
    using assms by (rule test_EXE_trim)
  then have g: "hasGoldPhishSignals (trim emailText)"
    by (simp add: hasGoldPhishSignals_def)
  then have l: "\<not> hasLegitDiscriminators (trim emailText)"
    by (simp add: hasLegitDiscriminators_def Let_def)
  have "trim emailText \<noteq> []"
    using t by (rule test_EXE_nonempty)
  with l have "analyzeEmail m emailText = scorerResult m (trim emailText)"
    by (simp add: analyzeEmail_def Let_def)
  with g l show ?thesis
    by blast
qed

lemma exe_sample_facts:
  "test EXE_EXT True ''  Urgent winner: password in Invoice.EXE, no action required  ''"
  "trim ''  Urgent winner: password in Invoice.EXE, no action required  '' =
     ''Urgent winner: password in Invoice.EXE, no action required''"
  "test strongLegit_rx True
     (toLowerCase ''Urgent winner: password in Invoice.EXE, no action required'')"
  "ruleScore ''Urgent winner: password in Invoice.EXE, no action required'' = 67"
  by code_simp+

theorem exe_reference_blocks_override_witness:
  "test EXE_EXT True ''  Urgent winner: password in Invoice.EXE, no action required  '' \<and>
   test strongLegit_rx True
     (toLowerCase (trim ''  Urgent winner: password in Invoice.EXE, no action required  '')) \<and>
   analyzeEmail None ''  Urgent winner: password in Invoice.EXE, no action required  '' =
     scorerResult None (trim ''  Urgent winner: password in Invoice.EXE, no action required  '') \<and>
   prediction (analyzeEmail None ''  Urgent winner: password in Invoice.EXE, no action required  '')
     = ''Phishing''"
proof -
  note w = exe_reference_blocks_override [OF exe_sample_facts(1), of None]
  have "prediction (scorerResult None ''Urgent winner: password in Invoice.EXE, no action required'')
        = ''Phishing''"
    by (simp add: scorerResult_def predictWithModel_def analyzeWithRules_prediction
        exe_sample_facts(4))
  with w show ?thesis
    by (simp add: exe_sample_facts)
qed

section \<open>The legitimacy phrase\<close>

lemma strongLegit_at_phrase:
  "rmatch strongLegit_rx True (p, ''no further action is required'' @ post) \<noteq> []"
  by (simp add: strongLegit_rx_def opt_def canonChar_bits)

lemma sublist_dropWhile:
  assumes "sublist xs s" and "xs \<noteq> []" and "\<not> P (hd xs)"
  shows "sublist xs (dropWhile P s)"
proof -
  from assms(1) obtain pre post where s: "s = pre @ xs @ post"
    by (auto simp: sublist_def)
  from assms(2,3) have keep: "dropWhile P (xs @ post) = xs @ post"
    by (cases xs) simp_all
  show ?thesis
  proof (cases "\<forall>x\<in>set pre. P x")
    case True
    then have "dropWhile P s = xs @ post"
      unfolding s by (simp add: keep)
    then show ?thesis
      by simp
  next
    case False
    then obtain x where "x \<in> set pre" and "\<not> P x"
      by blast
    then have "dropWhile P s = dropWhile P pre @ xs @ post"
      unfolding s by (rule dropWhile_append1)
    then show ?thesis
      by simp
  qed
qed

lemma sublist_trim:
  assumes "sublist xs s" and "xs \<noteq> []" and "\<not> isSpaceChar (hd xs)" and "\<not> isSpaceChar (last xs)"
  shows "sublist xs (trim s)"
proof -
  have "sublist xs (dropWhile isSpaceChar s)"
    using assms(1-3) by (rule sublist_dropWhile)
  then have "sublist (rev xs) (rev (dropWhile isSpaceChar s))"
    by simp
  moreover have "rev xs \<noteq> []" and "\<not> isSpaceChar (hd (rev xs))"
    using assms(2,4) by (simp_all add: hd_rev)
  ultimately have "sublist (rev xs) (dropWhile isSpaceChar (rev (dropWhile isSpaceChar s)))"
    by (rule sublist_dropWhile)
  then show ?thesis
    unfolding trim_def by (simp add: sublist_rev_left)
qed

lemma toLowerCase_trim: "toLowerCase (trim s) = trim (toLowerCase s)"
proof -
  have "isSpaceChar \<circ> toLowerChar = isSpaceChar"
    by (rule ext) (simp add: space_toLower)
  then show ?thesis
    by (simp add: toLowerCase_def trim_def rev_map dropWhile_map)
qed

lemma strongLegit_of_phrase:
  assumes "sublist ''no further action is required'' (toLowerCase emailText)"
  shows "test strongLegit_rx True (toLowerCase (trim emailText))"
proof -
  have "sublist ''no further action is required'' (trim (toLowerCase emailText))"
    using assms by (rule sublist_trim) (simp_all add: isSpaceChar_bits)
  then obtain pre post
    where "toLowerCase (trim emailText) = pre @ ''no further action is required'' @ post"
    by (auto simp: sublist_def toLowerCase_trim)
  moreover have "search strongLegit_rx True None (pre @ ''no further action is required'' @ post)"
    by (rule search_from) (rule strongLegit_at_phrase)
  ultimately show ?thesis
    by (simp add: test_def)
qed


text \<open>
  Claim C3. Let the input contain the phrase "no further action is required" (in any letter
  case), let the trimmed text have no gold signal, let the model scorer decline (as it
  does when no model is loaded) and let the rule engine's verdict be "Phishing". Then
  \<open>analyzeEmail\<close> returns the fixed override result: "Safe", confidence 0.68 and the fixed
  explanation. The override replaces a "Phishing" verdict only: a scorer result with the
  prediction "Safe" is returned as it is.
\<close>

theorem strong_legit_overrides_phishing:
  "(sublist ''no further action is required'' (toLowerCase emailText) \<and>
    \<not> hasGoldPhishSignals (trim emailText) \<and>
    predictWithModel m (trim emailText) = None \<and>
    prediction (analyzeWithRules (trim emailText)) = ''Phishing''
    \<longrightarrow> analyzeEmail m emailText = overrideResult \<and>
        prediction (analyzeEmail m emailText) = ''Safe'' \<and>
        confidence (analyzeEmail m emailText) = Fin (68 / 100))
   \<and> (trim emailText \<noteq> [] \<and> prediction (scorerResult m (trim emailText)) = ''Safe''
        \<longrightarrow> analyzeEmail m emailText = scorerResult m (trim emailText))"
proof (intro conjI impI)
  assume a: "sublist ''no further action is required'' (toLowerCase emailText) \<and>
    \<not> hasGoldPhishSignals (trim emailText) \<and>
    predictWithModel m (trim emailText) = None \<and>
    prediction (analyzeWithRules (trim emailText)) = ''Phishing''"
  then have "test strongLegit_rx True (toLowerCase (trim emailText))"
    using strongLegit_of_phrase by blast
  with a have l: "hasLegitDiscriminators (trim emailText)"
    by (simp add: hasLegitDiscriminators_def Let_def)
  from a have p: "prediction (scorerResult m (trim emailText)) = ''Phishing''"
    by (simp add: scorerResult_def)
  have "trim emailText \<noteq> []"
  proof
    assume "trim emailText = []"
    with l show False
      by (simp add: hasLegitDiscriminators_def Let_def toLowerCase_def test_def
          strongLegit_rx_def legitPhrase_rx_def opt_def)
  qed
  with l p show o: "analyzeEmail m emailText = overrideResult"
    by (simp add: analyzeEmail_def Let_def)
  show "prediction (analyzeEmail m emailText) = ''Safe''"
    unfolding o by (rule overrideResult_fields)
  show "confidence (analyzeEmail m emailText) = Fin (68 / 100)"
    unfolding o by (rule overrideResult_fields)
next
  assume "trim emailText \<noteq> [] \<and> prediction (scorerResult m (trim emailText)) = ''Safe''"
  then show "analyzeEmail m emailText = scorerResult m (trim emailText)"
    by (simp add: analyzeEmail_def Let_def)
qed

lemma override_sample_facts:
  "toLowerCase ''Avoid penalties: SSN at x.ru. No further action is required. '' =
     ''avoid penalties: ssn at x.ru. '' @ ''no further action is required'' @ ''. ''"
  "trim ''Avoid penalties: SSN at x.ru. No further action is required. '' =
     ''Avoid penalties: SSN at x.ru. No further action is required.''"
  "hasGoldPhishSignals ''Avoid penalties: SSN at x.ru. No further action is required.'' = False"
  "ruleScore ''Avoid penalties: SSN at x.ru. No further action is required.'' = 67"
  by code_simp+

theorem strong_legit_overrides_phishing_witness:
  "sublist ''no further action is required''
     (toLowerCase ''Avoid penalties: SSN at x.ru. No further action is required. '') \<and>
   \<not> hasGoldPhishSignals (trim ''Avoid penalties: SSN at x.ru. No further action is required. '') \<and>
   predictWithModel None (trim ''Avoid penalties: SSN at x.ru. No further action is required. '') = None \<and>
   prediction (analyzeWithRules
     (trim ''Avoid penalties: SSN at x.ru. No further action is required. '')) = ''Phishing'' \<and>
   analyzeEmail None ''Avoid penalties: SSN at x.ru. No further action is required. '' = overrideResult \<and>
   confidence (analyzeEmail None ''Avoid penalties: SSN at x.ru. No further action is required. '')
     = Fin (68 / 100) \<and>
   trim ''winner payroll enable macros'' \<noteq> [] \<and>
   prediction (scorerResult None (trim ''winner payroll enable macros'')) = ''Safe'' \<and>
   analyzeEmail None ''winner payroll enable macros'' =
     scorerResult None (trim ''winner payroll enable macros'')"
proof -
  have h1: "sublist ''no further action is required''
     (toLowerCase ''Avoid penalties: SSN at x.ru. No further action is required. '')"
    unfolding override_sample_facts(1) by (rule sublist_appendI)
  have h2: "\<not> hasGoldPhishSignals (trim ''Avoid penalties: SSN at x.ru. No further action is required. '')"
    by (simp add: override_sample_facts)
  have h3: "predictWithModel None
     (trim ''Avoid penalties: SSN at x.ru. No further action is required. '') = None"
    by (simp add: predictWithModel_def)
  have h4: "prediction (analyzeWithRules
     (trim ''Avoid penalties: SSN at x.ru. No further action is required. '')) = ''Phishing''"
    by (simp add: override_sample_facts analyzeWithRules_prediction)
  have k1: "trim ''winner payroll enable macros'' \<noteq> []"
    by (simp add: trim_at_51)
  have k2: "prediction (scorerResult None (trim ''winner payroll enable macros'')) = ''Safe''"
    by (simp add: trim_at_51 scorerResult_def predictWithModel_def analyzeWithRules_prediction
        ruleScore_at_51)
  from h1 h2 h3 h4 k1 k2
    strong_legit_overrides_phishing
      [of "''Avoid penalties: SSN at x.ru. No further action is required. ''" None]
    strong_legit_overrides_phishing [of "''winner payroll enable macros''" None]
  show ?thesis
    by blast
qed

section \<open>The score as a sum of weights\<close>

lemma foldl_hit_fst:
  "fst (foldl (\<lambda>t sig. hit sig t) acc sigs) = fst acc + weightSum sigs"
  by (induction sigs arbitrary: acc) (auto simp: hit_def weightSum_def split: prod.splits)

lemma tally_weightSum: "fst (tally sigs) = weightSum sigs"
  by (simp add: tally_def foldl_hit_fst)

lemma contribution_mset:
  assumes "mset gs' = mset gs"
  shows "contribution gs' = contribution gs"
proof -
  have "contribution xs = sum_mset (image_mset (\<lambda>g. case g of (fires, w) \<Rightarrow> if fires then w else 0) (mset xs))"
    for xs :: "(bool \<times> int) list"
    by (simp add: contribution_def sum_mset_sum_list [symmetric])
  with assms show ?thesis
    by simp
qed

lemma weightSum_contribution:
  "weightSum sigs = contribution (map (\<lambda>sig. case sig of (c, w, r) \<Rightarrow> (c, w)) sigs)"
  by (induction sigs) (auto simp: weightSum_def contribution_def)

text \<open>
  Claim C6, as the code has it. The score is the sum of the weights of the phishing groups
  that fire, less the sum of the deductions of the legitimacy discriminators that fire,
  clamped to 0..100. The fourteen groups and the three discriminators are listed with
  their conditions and weights: every one fires when its pattern matches somewhere in the
  text (the lowercased text or the text as given, as the code tests it; the executable
  group on either of its two patterns), whatever the number of matches, except the group
  of the links (+10), which fires when the link pattern matches more than 3 times. A
  group that fires gives its weight once, a group that does not gives nothing, and the
  two tables may be summed in any order.
\<close>

theorem ruleScore_weight_sum:
  assumes "mset ps = mset
     [(test URGENCY True (toLowerCase text), 20), (test THREATS True (toLowerCase text), 25),
      (test AUTHORITY True (toLowerCase text), 15), (test CREDENTIALS True (toLowerCase text), 22),
      (test CTA True (toLowerCase text), 22), (test FINANCIAL True (toLowerCase text), 20),
      (test ATTACHMENT True (toLowerCase text), 18),
      (test BAD_EXT True (toLowerCase text) \<or> test EXE_EXT True text, 35),
      (test SUSPICIOUS_TLD True text, 28), (test IP_IN_URL False text, 25),
      (test SHORTENED True text, 12), (3 < matchCount LINK_PATTERN True text, 10),
      (test COMPOSITE True (toLowerCase text), 25), (test REWARD True (toLowerCase text), 18)]"
    and "mset ls = mset
     [(test STRONG_LEGIT True (toLowerCase text), 28), (test LEGIT_PHRASES True (toLowerCase text), 14),
      (test CANONICAL_DOMAIN True text, 18)]"
  shows "ruleScore text = min 100 (max 0 (contribution ps - contribution ls))"
proof -
  have p: "fst (tally (phishingSignals text)) = contribution ps"
    unfolding tally_weightSum weightSum_contribution contribution_mset [OF assms(1)]
    by (simp add: phishingSignals_def Let_def)
  have l: "fst (tally (legitSignals text)) = contribution ls"
    unfolding tally_weightSum weightSum_contribution contribution_mset [OF assms(2)]
    by (simp add: legitSignals_def Let_def)
  show ?thesis
    by (simp add: ruleScore_def p l)
qed

lemma link_sample_facts:
  "test LINK_PATTERN True ''http://a'' = True"
  "ruleScore ''http://a'' = 0"
  "scoreByPattern ''http://a'' = 10"
  "matchCount LINK_PATTERN True ''http://a http://b http://c'' = 3"
  "ruleScore ''http://a http://b http://c'' = 0"
  "matchCount LINK_PATTERN True ''http://a http://b http://c http://d'' = 4"
  "ruleScore ''http://a http://b http://c http://d'' = 10"
  "map fst (signalsByPattern ''http://a http://b http://c'') =
     map fst (signalsByPattern ''http://a http://b http://c http://d'')"
  "map fst (legitSignals ''http://a http://b http://c'') =
     map fst (legitSignals ''http://a http://b http://c http://d'')"
  by code_simp+

text \<open>The link pattern matches \<open>http://a\<close>, so a score in which every group fires on a
  match of its pattern would be 10; the rule engine's score is 0. And the two texts with
  three and with four links match the same patterns, yet their scores differ.\<close>

theorem score_by_pattern_counterexample:
  "test LINK_PATTERN True ''http://a'' \<and> scoreByPattern ''http://a'' = 10 \<and>
   ruleScore ''http://a'' = 0 \<and>
   map fst (signalsByPattern ''http://a http://b http://c'') =
     map fst (signalsByPattern ''http://a http://b http://c http://d'') \<and>
   map fst (legitSignals ''http://a http://b http://c'') =
     map fst (legitSignals ''http://a http://b http://c http://d'') \<and>
   ruleScore ''http://a http://b http://c'' = 0 \<and>
   ruleScore ''http://a http://b http://c http://d'' = 10"
  using link_sample_facts by simp

section \<open>Runs of the rule engine\<close>

text \<open>The two tables evaluated on four texts: several groups and a deduction, a sum above
  100, deductions alone, and four links.\<close>

lemma tables_A:
  "[(test URGENCY True (toLowerCase ''Avoid penalties: SSN at x.ru. No further action is required.''), 20 :: int),
    (test THREATS True (toLowerCase ''Avoid penalties: SSN at x.ru. No further action is required.''), 25),
    (test AUTHORITY True (toLowerCase ''Avoid penalties: SSN at x.ru. No further action is required.''), 15),
    (test CREDENTIALS True (toLowerCase ''Avoid penalties: SSN at x.ru. No further action is required.''), 22),
    (test CTA True (toLowerCase ''Avoid penalties: SSN at x.ru. No further action is required.''), 22),
    (test FINANCIAL True (toLowerCase ''Avoid penalties: SSN at x.ru. No further action is required.''), 20),
    (test ATTACHMENT True (toLowerCase ''Avoid penalties: SSN at x.ru. No further action is required.''), 18),
    (test BAD_EXT True (toLowerCase ''Avoid penalties: SSN at x.ru. No further action is required.'') \<or> test EXE_EXT True ''Avoid penalties: SSN at x.ru. No further action is required.'', 35),
    (test SUSPICIOUS_TLD True ''Avoid penalties: SSN at x.ru. No further action is required.'', 28),
    (test IP_IN_URL False ''Avoid penalties: SSN at x.ru. No further action is required.'', 25),
    (test SHORTENED True ''Avoid penalties: SSN at x.ru. No further action is required.'', 12),
    (3 < matchCount LINK_PATTERN True ''Avoid penalties: SSN at x.ru. No further action is required.'', 10),
    (test COMPOSITE True (toLowerCase ''Avoid penalties: SSN at x.ru. No further action is required.''), 25),
    (test REWARD True (toLowerCase ''Avoid penalties: SSN at x.ru. No further action is required.''), 18)] =
     [(True, 20), (True, 25), (False, 15), (True, 22), (False, 22), (False, 20),
      (False, 18), (False, 35), (True, 28), (False, 25), (False, 12), (False, 10),
      (False, 25), (False, 18)]"
  "[(test STRONG_LEGIT True (toLowerCase ''Avoid penalties: SSN at x.ru. No further action is required.''), 28 :: int),
    (test LEGIT_PHRASES True (toLowerCase ''Avoid penalties: SSN at x.ru. No further action is required.''), 14),
    (test CANONICAL_DOMAIN True ''Avoid penalties: SSN at x.ru. No further action is required.'', 18)] =
     [(True, 28), (False, 14), (False, 18)]"
  by code_simp+

lemma tables_B:
  "[(test URGENCY True (toLowerCase ''Urgent winner: password in Invoice.EXE at x.ru, click here''), 20 :: int),
    (test THREATS True (toLowerCase ''Urgent winner: password in Invoice.EXE at x.ru, click here''), 25),
    (test AUTHORITY True (toLowerCase ''Urgent winner: password in Invoice.EXE at x.ru, click here''), 15),
    (test CREDENTIALS True (toLowerCase ''Urgent winner: password in Invoice.EXE at x.ru, click here''), 22),
    (test CTA True (toLowerCase ''Urgent winner: password in Invoice.EXE at x.ru, click here''), 22),
    (test FINANCIAL True (toLowerCase ''Urgent winner: password in Invoice.EXE at x.ru, click here''), 20),
    (test ATTACHMENT True (toLowerCase ''Urgent winner: password in Invoice.EXE at x.ru, click here''), 18),
    (test BAD_EXT True (toLowerCase ''Urgent winner: password in Invoice.EXE at x.ru, click here'') \<or> test EXE_EXT True ''Urgent winner: password in Invoice.EXE at x.ru, click here'', 35),
    (test SUSPICIOUS_TLD True ''Urgent winner: password in Invoice.EXE at x.ru, click here'', 28),
    (test IP_IN_URL False ''Urgent winner: password in Invoice.EXE at x.ru, click here'', 25),
    (test SHORTENED True ''Urgent winner: password in Invoice.EXE at x.ru, click here'', 12),
    (3 < matchCount LINK_PATTERN True ''Urgent winner: password in Invoice.EXE at x.ru, click here'', 10),
    (test COMPOSITE True (toLowerCase ''Urgent winner: password in Invoice.EXE at x.ru, click here''), 25),
    (test REWARD True (toLowerCase ''Urgent winner: password in Invoice.EXE at x.ru, click here''), 18)] =
     [(True, 20), (False, 25), (False, 15), (True, 22), (True, 22), (False, 20),
      (False, 18), (True, 35), (True, 28), (False, 25), (False, 12), (False, 10),
      (False, 25), (True, 18)]"
  "[(test STRONG_LEGIT True (toLowerCase ''Urgent winner: password in Invoice.EXE at x.ru, click here''), 28 :: int),
    (test LEGIT_PHRASES True (toLowerCase ''Urgent winner: password in Invoice.EXE at x.ru, click here''), 14),
    (test CANONICAL_DOMAIN True ''Urgent winner: password in Invoice.EXE at x.ru, click here'', 18)] =
     [(False, 28), (False, 14), (False, 18)]"
  by code_simp+

lemma tables_C:
  "[(test URGENCY True (toLowerCase ''For informational purposes only, see google.com''), 20 :: int),
    (test THREATS True (toLowerCase ''For informational purposes only, see google.com''), 25),
    (test AUTHORITY True (toLowerCase ''For informational purposes only, see google.com''), 15),
    (test CREDENTIALS True (toLowerCase ''For informational purposes only, see google.com''), 22),
    (test CTA True (toLowerCase ''For informational purposes only, see google.com''), 22),
    (test FINANCIAL True (toLowerCase ''For informational purposes only, see google.com''), 20),
    (test ATTACHMENT True (toLowerCase ''For informational purposes only, see google.com''), 18),
    (test BAD_EXT True (toLowerCase ''For informational purposes only, see google.com'') \<or> test EXE_EXT True ''For informational purposes only, see google.com'', 35),
    (test SUSPICIOUS_TLD True ''For informational purposes only, see google.com'', 28),
    (test IP_IN_URL False ''For informational purposes only, see google.com'', 25),
    (test SHORTENED True ''For informational purposes only, see google.com'', 12),
    (3 < matchCount LINK_PATTERN True ''For informational purposes only, see google.com'', 10),
    (test COMPOSITE True (toLowerCase ''For informational purposes only, see google.com''), 25),
    (test REWARD True (toLowerCase ''For informational purposes only, see google.com''), 18)] =
     [(False, 20), (False, 25), (False, 15), (False, 22), (False, 22), (False, 20),
      (False, 18), (False, 35), (False, 28), (False, 25), (False, 12), (False, 10),
      (False, 25), (False, 18)]"
  "[(test STRONG_LEGIT True (toLowerCase ''For informational purposes only, see google.com''), 28 :: int),
    (test LEGIT_PHRASES True (toLowerCase ''For informational purposes only, see google.com''), 14),
    (test CANONICAL_DOMAIN True ''For informational purposes only, see google.com'', 18)] =
     [(True, 28), (False, 14), (True, 18)]"
  by code_simp+

lemma tables_D:
  "[(test URGENCY True (toLowerCase ''http://a http://b http://c http://d''), 20 :: int),
    (test THREATS True (toLowerCase ''http://a http://b http://c http://d''), 25),
    (test AUTHORITY True (toLowerCase ''http://a http://b http://c http://d''), 15),
    (test CREDENTIALS True (toLowerCase ''http://a http://b http://c http://d''), 22),
    (test CTA True (toLowerCase ''http://a http://b http://c http://d''), 22),
    (test FINANCIAL True (toLowerCase ''http://a http://b http://c http://d''), 20),
    (test ATTACHMENT True (toLowerCase ''http://a http://b http://c http://d''), 18),
    (test BAD_EXT True (toLowerCase ''http://a http://b http://c http://d'') \<or> test EXE_EXT True ''http://a http://b http://c http://d'', 35),
    (test SUSPICIOUS_TLD True ''http://a http://b http://c http://d'', 28),
    (test IP_IN_URL False ''http://a http://b http://c http://d'', 25),
    (test SHORTENED True ''http://a http://b http://c http://d'', 12),
    (3 < matchCount LINK_PATTERN True ''http://a http://b http://c http://d'', 10),
    (test COMPOSITE True (toLowerCase ''http://a http://b http://c http://d''), 25),
    (test REWARD True (toLowerCase ''http://a http://b http://c http://d''), 18)] =
     [(False, 20), (False, 25), (False, 15), (False, 22), (False, 22), (False, 20),
      (False, 18), (False, 35), (False, 28), (False, 25), (False, 12), (True, 10),
      (False, 25), (False, 18)]"
  "[(test STRONG_LEGIT True (toLowerCase ''http://a http://b http://c http://d''), 28 :: int),
    (test LEGIT_PHRASES True (toLowerCase ''http://a http://b http://c http://d''), 14),
    (test CANONICAL_DOMAIN True ''http://a http://b http://c http://d'', 18)] =
     [(False, 28), (False, 14), (False, 18)]"
  by code_simp+

theorem ruleScore_weight_sum_witness:
  "ruleScore ''Avoid penalties: SSN at x.ru. No further action is required.'' =
     min 100 (max 0
       (contribution
          (rev [(True, 20), (True, 25), (False, 15), (True, 22), (False, 22), (False, 20),
             (False, 18), (False, 35), (True, 28), (False, 25), (False, 12), (False, 10),
             (False, 25), (False, 18)]) -
        contribution (rev [(True, 28), (False, 14), (False, 18)]))) \<and>
   ruleScore ''Avoid penalties: SSN at x.ru. No further action is required.'' = 67 \<and>
   ruleScore ''Urgent winner: password in Invoice.EXE at x.ru, click here'' =
     min 100 (max 0
       (contribution
          (rev [(True, 20), (False, 25), (False, 15), (True, 22), (True, 22), (False, 20),
             (False, 18), (True, 35), (True, 28), (False, 25), (False, 12), (False, 10),
             (False, 25), (True, 18)]) -
        contribution (rev [(False, 28), (False, 14), (False, 18)]))) \<and>
   ruleScore ''Urgent winner: password in Invoice.EXE at x.ru, click here'' = 100 \<and>
   ruleScore ''For informational purposes only, see google.com'' =
     min 100 (max 0
       (contribution
          (rev [(False, 20), (False, 25), (False, 15), (False, 22), (False, 22), (False, 20),
             (False, 18), (False, 35), (False, 28), (False, 25), (False, 12), (False, 10),
             (False, 25), (False, 18)]) -
        contribution (rev [(True, 28), (False, 14), (True, 18)]))) \<and>
   ruleScore ''For informational purposes only, see google.com'' = 0 \<and>
   ruleScore ''http://a http://b http://c http://d'' =
     min 100 (max 0
       (contribution
          (rev [(False, 20), (False, 25), (False, 15), (False, 22), (False, 22), (False, 20),
             (False, 18), (False, 35), (False, 28), (False, 25), (False, 12), (True, 10),
             (False, 25), (False, 18)]) -
        contribution (rev [(False, 28), (False, 14), (False, 18)]))) \<and>
   ruleScore ''http://a http://b http://c http://d'' = 10"
proof -
  have a: "ruleScore ''Avoid penalties: SSN at x.ru. No further action is required.'' =
       min 100 (max 0
         (contribution
            (rev [(True, 20), (True, 25), (False, 15), (True, 22), (False, 22), (False, 20),
               (False, 18), (False, 35), (True, 28), (False, 25), (False, 12), (False, 10),
               (False, 25), (False, 18)]) -
          contribution (rev [(True, 28), (False, 14), (False, 18)])))"
    by (rule ruleScore_weight_sum) (simp_all only: mset_rev tables_A)
  then have a': "ruleScore ''Avoid penalties: SSN at x.ru. No further action is required.'' = 67"
    by (simp add: contribution_def)
  have b: "ruleScore ''Urgent winner: password in Invoice.EXE at x.ru, click here'' =
       min 100 (max 0
         (contribution
            (rev [(True, 20), (False, 25), (False, 15), (True, 22), (True, 22), (False, 20),
               (False, 18), (True, 35), (True, 28), (False, 25), (False, 12), (False, 10),
               (False, 25), (True, 18)]) -
          contribution (rev [(False, 28), (False, 14), (False, 18)])))"
    by (rule ruleScore_weight_sum) (simp_all only: mset_rev tables_B)
  then have b': "ruleScore ''Urgent winner: password in Invoice.EXE at x.ru, click here'' = 100"
    by (simp add: contribution_def)
  have c: "ruleScore ''For informational purposes only, see google.com'' =
       min 100 (max 0
         (contribution
            (rev [(False, 20), (False, 25), (False, 15), (False, 22), (False, 22), (False, 20),
               (False, 18), (False, 35), (False, 28), (False, 25), (False, 12), (False, 10),
               (False, 25), (False, 18)]) -
          contribution (rev [(True, 28), (False, 14), (True, 18)])))"
    by (rule ruleScore_weight_sum) (simp_all only: mset_rev tables_C)
  then have c': "ruleScore ''For informational purposes only, see google.com'' = 0"
    by (simp add: contribution_def)
  have d: "ruleScore ''http://a http://b http://c http://d'' =
       min 100 (max 0
         (contribution
            (rev [(False, 20), (False, 25), (False, 15), (False, 22), (False, 22), (False, 20),
               (False, 18), (False, 35), (False, 28), (False, 25), (False, 12), (True, 10),
               (False, 25), (False, 18)]) -
          contribution (rev [(False, 28), (False, 14), (False, 18)])))"
    by (rule ruleScore_weight_sum) (simp_all only: mset_rev tables_D)
  then have d': "ruleScore ''http://a http://b http://c http://d'' = 10"
    by (simp add: contribution_def)
  from a a' b b' c c' d d' show ?thesis
    by blast
qed

section \<open>The example of the suspended account\<close>

lemma suspended_sample_facts:
  "trim ''Your account has been suspended. Click here immediately to verify your identity.'' =
     ''Your account has been suspended. Click here immediately to verify your identity.''"
  "toLowerCase ''Your account has been suspended. Click here immediately to verify your identity.'' =
     ''your account has been suspended. click here immediately to verify your identity.''"
  "test URGENCY True
     ''your account has been suspended. click here immediately to verify your identity.'' = True"
  "test THREATS True
     ''your account has been suspended. click here immediately to verify your identity.'' = False"
  "test CREDENTIALS True
     ''your account has been suspended. click here immediately to verify your identity.'' = True"
  "test CTA True
     ''your account has been suspended. click here immediately to verify your identity.'' = True"
  "tally (phishingSignals
     ''Your account has been suspended. Click here immediately to verify your identity.'') =
     (64, [''urgency or time pressure'', ''credential or verification request'',
           ''call-to-action (click/open/verify)''])"
  "tally (legitSignals
     ''Your account has been suspended. Click here immediately to verify your identity.'') = (0, [])"
  by code_simp+

theorem suspended_threats_counterexample:
  "\<not> test THREATS True
     (toLowerCase ''Your account has been suspended. Click here immediately to verify your identity.'')"
  by (simp add: suspended_sample_facts)

text \<open>
  Claim C9, as the code has it. For the input "Your account has been suspended. Click here
  immediately to verify your identity." with no model loaded, \<open>analyzeEmail\<close> returns
  "Phishing" with the confidence 0.64, which is more than 0.5. Three signal groups fire:
  urgency, credential and call-to-action (20 + 22 + 22 = 64). The threats group does not
  fire, and no legitimacy deduction applies.
\<close>

theorem suspended_example_result:
  "analyzeEmail None
     ''Your account has been suspended. Click here immediately to verify your identity.'' =
     \<lparr>prediction = ''Phishing'', confidence = Fin (64 / 100),
      explanation =
        ''Signals detected: urgency or time pressure; credential or verification request; '' @
        ''call-to-action (click/open/verify). '' @
        ''Consider verifying the sender and avoiding links or attachments.''\<rparr>
   \<and> tally (phishingSignals
         ''Your account has been suspended. Click here immediately to verify your identity.'') =
       (64, [''urgency or time pressure'', ''credential or verification request'',
             ''call-to-action (click/open/verify)''])
   \<and> tally (legitSignals
         ''Your account has been suspended. Click here immediately to verify your identity.'') =
       (0, [])
   \<and> test URGENCY True (toLowerCase
         ''Your account has been suspended. Click here immediately to verify your identity.'')
   \<and> \<not> test THREATS True (toLowerCase
         ''Your account has been suspended. Click here immediately to verify your identity.'')
   \<and> test CREDENTIALS True (toLowerCase
         ''Your account has been suspended. Click here immediately to verify your identity.'')
   \<and> test CTA True (toLowerCase
         ''Your account has been suspended. Click here immediately to verify your identity.'')"
proof -
  let ?t = "''Your account has been suspended. Click here immediately to verify your identity.''"
  have s: "ruleScore ?t = 64"
    by (simp add: ruleScore_def suspended_sample_facts)
  have r: "analyzeWithRules ?t =
     \<lparr>prediction = ''Phishing'', confidence = Fin (64 / 100),
      explanation =
        ''Signals detected: urgency or time pressure; credential or verification request; '' @
        ''call-to-action (click/open/verify). '' @
        ''Consider verifying the sender and avoiding links or attachments.''\<rparr>"
    using round2_hundredths [of 64]
    by (simp add: analyzeWithRules_def s suspended_sample_facts ruleExplanation_def)
  have g: "\<not> hasLegitDiscriminators ?t"
    by code_simp
  have "analyzeEmail None ?t = analyzeWithRules ?t"
    using g by (simp add: analyzeEmail_def suspended_sample_facts scorerResult_def
        predictWithModel_def)
  with r show ?thesis
    by (simp add: suspended_sample_facts)
qed

section \<open>The tokens and the counts of the model scorer\<close>

lemma indexOf_less: "indexOf v x = Some i \<Longrightarrow> i < length v"
  by (induction v arbitrary: i) (auto split: if_splits)

lemma hitIndex_less: "hitIndex v w = Some i \<Longrightarrow> i < length v"
  by (auto simp: hitIndex_def indexOf_less split: option.splits if_splits)

lemma bump_map:
  assumes "idx < n"
  shows "bump (map f [0..<n]) idx = map (\<lambda>i. f i + (if i = idx then 1 else 0)) [0..<n]"
  using assms by (intro nth_equalityI) (auto simp: bump_def nth_list_update)

lemma countWordParsed_hit:
  "countWordParsed v (map f [0..<length v]) w =
     map (\<lambda>i. f i + (if hitIndex v w = Some i then 1 else 0)) [0..<length v]"
proof (cases "hitIndex v w")
  case None
  then show ?thesis
    by (auto simp: countWordParsed_def hitIndex_def Let_def split: option.splits if_splits)
next
  case (Some idx)
  then have "idx < length v"
    by (rule hitIndex_less)
  moreover have "(\<lambda>i. f i + (if i = idx then 1 else 0)) =
      (\<lambda>i. f i + (if hitIndex v w = Some i then 1 else 0))"
    using Some by auto
  ultimately have "bump (map f [0..<length v]) idx =
      map (\<lambda>i. f i + (if hitIndex v w = Some i then 1 else 0)) [0..<length v]"
    by (simp add: bump_map)
  moreover have "countWordParsed v (map f [0..<length v]) w = bump (map f [0..<length v]) idx"
    using Some by (auto simp: countWordParsed_def hitIndex_def Let_def split: option.splits if_splits)
  ultimately show ?thesis
    by simp
qed

lemma countWordsParsed_hitCounts: "countWordsParsed v words = hitCounts v words"
proof (induction words rule: rev_induct)
  case Nil
  show ?case
    by (simp add: countWordsParsed_def hitCounts_def map_replicate_const)
next
  case (snoc w words)
  have "countWordsParsed v (words @ [w]) = countWordParsed v (hitCounts v words) w"
    using snoc by (simp add: countWordsParsed_def)
  also have "\<dots> = map (\<lambda>i. length (filter (\<lambda>w. hitIndex v w = Some i) words) +
                          (if hitIndex v w = Some i then 1 else 0)) [0..<length v]"
    unfolding hitCounts_def by (rule countWordParsed_hit)
  also have "\<dots> = hitCounts v (words @ [w])"
    by (simp add: hitCounts_def)
  finally show ?case .
qed


lemma word_not_space_bits:
  "isWordChar (Char b0 b1 b2 b3 b4 b5 b6 b7) \<Longrightarrow> \<not> isSpaceChar (Char b0 b1 b2 b3 b4 b5 b6 b7)"
  by (cases b0; cases b1; cases b2; cases b3; cases b4; cases b5; cases b6; cases b7;
      simp add: isSpaceChar_bits isWordChar_bits)

lemma word_not_space: "isWordChar c \<Longrightarrow> \<not> isSpaceChar c"
  by (cases c) (simp only: word_not_space_bits not_False_eq_True)

lemma space_blankPunct: "isSpaceChar (blankPunct c) \<longleftrightarrow> \<not> isWordChar c"
proof (cases "isWordChar c")
  case True
  then show ?thesis
    by (simp add: blankPunct_def word_not_space)
next
  case False
  have "isSpaceChar CHR '' ''"
    by (simp add: isSpaceChar_bits)
  with False show ?thesis
    by (simp add: blankPunct_def)
qed

lemma blankPunct_word: "isWordChar c \<Longrightarrow> blankPunct c = c"
  by (simp add: blankPunct_def)

lemma wordRuns_split:
  "wordRuns u =
     (if takeWhile isWordChar u = [] then [] else [takeWhile isWordChar u]) @
     wordRuns (dropWhile isWordChar u)"
  by (cases u) simp_all

lemma wordRuns_skip: "wordRuns (dropWhile (\<lambda>c. \<not> isWordChar c) u) = wordRuns u"
  by (induction u) simp_all

lemma splitSpaces_runs:
  "filter (\<lambda>w. w \<noteq> []) (splitSpaces cur (map blankPunct s)) =
     (if cur @ takeWhile isWordChar s = [] then [] else [cur @ takeWhile isWordChar s]) @
     wordRuns (dropWhile isWordChar s)"
proof (induction s arbitrary: cur rule: length_induct)
  case (1 s)
  show ?case
  proof (cases s)
    case Nil
    then show ?thesis by simp
  next
    case (Cons c cs)
    show ?thesis
    proof (cases "isWordChar c")
      case True
      have "filter (\<lambda>w. w \<noteq> []) (splitSpaces (cur @ [c]) (map blankPunct cs)) =
          (if (cur @ [c]) @ takeWhile isWordChar cs = [] then []
           else [(cur @ [c]) @ takeWhile isWordChar cs]) @
          wordRuns (dropWhile isWordChar cs)"
        using "1.IH" Cons by simp
      with True Cons show ?thesis
        by (simp add: blankPunct_word word_not_space)
    next
      case False
      let ?rest = "dropWhile (\<lambda>c. \<not> isWordChar c) cs"
      have d: "dropWhile isSpaceChar (map blankPunct cs) = map blankPunct ?rest"
        by (simp add: dropWhile_map comp_def space_blankPunct)
      have "length ?rest < length s"
        using Cons by (simp add: le_imp_less_Suc length_dropWhile_le)
      then have "filter (\<lambda>w. w \<noteq> []) (splitSpaces [] (map blankPunct ?rest)) =
          (if [] @ takeWhile isWordChar ?rest = [] then [] else [[] @ takeWhile isWordChar ?rest]) @
          wordRuns (dropWhile isWordChar ?rest)"
        using "1.IH" by blast
      then have "filter (\<lambda>w. w \<noteq> []) (splitSpaces [] (map blankPunct ?rest)) = wordRuns cs"
        using wordRuns_split [of ?rest] by (simp add: wordRuns_skip)
      with False Cons d show ?thesis
        by (simp add: space_blankPunct)
    qed
  qed
qed

lemma tokenize_wordRuns: "tokenize text = wordRuns (toLowerCase text)"
  using splitSpaces_runs [of "[]" "toLowerCase text"] wordRuns_split [of "toLowerCase text"]
  by (simp add: tokenize_def)

section \<open>Rounding to doubles\<close>

lemma binade_eq:
  assumes "2 powi e \<le> \<bar>x\<bar>" and "\<bar>x\<bar> < 2 powi (e + 1)"
  shows "binade x = e"
proof -
  have pos: "0 < \<bar>x\<bar>"
    using assms(1) by (smt (verit) zero_less_power_int)
  have p: "(2::real) powr of_int k = 2 powi k" for k
    by (simp add: powr_real_of_int')
  have "of_int e \<le> log 2 \<bar>x\<bar>"
    using assms(1) pos by (simp add: le_log_iff p)
  moreover have "log 2 \<bar>x\<bar> < of_int e + 1"
  proof -
    have "\<bar>x\<bar> < 2 powr (of_int (e + 1))"
      using assms(2) by (simp only: p)
    then show ?thesis
      using pos by (simp add: log_less_iff add.commute)
  qed
  ultimately show ?thesis
    unfolding binade_def by (rule floor_unique)
qed

lemma two_powi_less:
  assumes "(2::real) powi a < 2 powi b"
  shows "a < b"
proof -
  have "(2::real) powr of_int a < 2 powr of_int b"
    using assms by (simp add: powr_real_of_int')
  then show ?thesis by simp
qed

lemma roundEven_of_int: "roundEven (of_int n) = n"
  by (simp add: roundEven_def)

lemma binade_bounds:
  assumes "x \<noteq> 0"
  shows "2 powi (binade x) \<le> \<bar>x\<bar>" and "\<bar>x\<bar> < 2 powi (binade x + 1)"
proof -
  have pos: "0 < \<bar>x\<bar>" using assms by simp
  have p: "(2::real) powr of_int k = 2 powi k" for k
    by (simp add: powr_real_of_int')
  have "of_int (binade x) \<le> log 2 \<bar>x\<bar>"
    by (simp add: binade_def)
  then have "2 powr of_int (binade x) \<le> \<bar>x\<bar>"
    using pos by (simp add: le_log_iff)
  then show "2 powi (binade x) \<le> \<bar>x\<bar>" by (simp only: p)
  have "log 2 \<bar>x\<bar> < of_int (binade x + 1)"
    by (simp add: binade_def)
  then have "\<bar>x\<bar> < 2 powr of_int (binade x + 1)"
    using pos by (simp add: log_less_iff)
  then show "\<bar>x\<bar> < 2 powi (binade x + 1)" by (simp only: p)
qed

text \<open>A real with a 53-bit significand and an exponent in range is a double.\<close>

lemma toDouble_exact:
  assumes "x = of_int n * 2 powi k" and "\<bar>n\<bar> < 2 ^ 53" and "- 1074 \<le> k" and "\<bar>x\<bar> < 2 ^ 1024"
  shows "toDouble x = Fin x"
proof (cases "x = 0")
  case True
  then show ?thesis by (simp add: toDouble_def)
next
  case False
  define u where "u = max (binade x - 52) (- 1074)"
  have "2 powi (binade x) \<le> \<bar>x\<bar>" using binade_bounds(1) [OF False] .
  also have "\<bar>x\<bar> = of_int \<bar>n\<bar> * 2 powi k"
    by (simp add: assms(1) abs_mult)
  also have "\<dots> < 2 ^ 53 * 2 powi k"
  proof -
    have "(of_int \<bar>n\<bar> :: real) < 2 ^ 53"
      using assms(2) by (metis of_int_less_numeral_power_cancel_iff)
    then show ?thesis by (simp)
  qed
  also have "\<dots> = 2 powi (53 + k)"
    by (simp add: power_int_add)
  finally have "binade x < 53 + k"
    by (rule two_powi_less)
  then have uk: "u \<le> k" using assms(3) by (simp add: u_def)
  then obtain d :: nat where d: "k = u + int d"
    by (metis zle_iff_zadd)
  have ulp: "ulp x = 2 powi u" by (simp add: ulp_def u_def)
  have xu: "x = (of_int n * 2 ^ d) * 2 powi u"
    by (simp add: assms(1) d power_int_add)
  have "x / 2 powi u = of_int n * 2 ^ d"
    by (subst xu) simp
  then have "x / ulp x = of_int (n * 2 ^ d)"
    by (simp only: ulp) simp
  then have "roundEven (x / ulp x) = n * 2 ^ d"
    by (simp only: roundEven_of_int)
  then have "of_int (roundEven (x / ulp x)) * ulp x = (of_int n * 2 ^ d) * 2 powi u"
    by (simp only: ulp) simp
  then have "of_int (roundEven (x / ulp x)) * ulp x = x"
    by (simp only: xu [symmetric])
  then show ?thesis
    using False assms(4) by (simp add: toDouble_def Let_def)
qed

lemma toDouble_int:
  assumes "\<bar>n\<bar> < 2 ^ 53"
  shows "toDouble (of_int n) = Fin (of_int n)"
proof (rule toDouble_exact [where n = n and k = 0])
  have "\<bar>of_int n :: real\<bar> = of_int \<bar>n\<bar>" by simp
  also have "\<dots> < 2 ^ 53" using assms by (metis of_int_less_numeral_power_cancel_iff)
  also have "\<dots> < (2::real) ^ 1024" by simp
  finally show "\<bar>of_int n :: real\<bar> < 2 ^ 1024" .
qed (use assms in simp_all)

lemma toDouble_eval:
  assumes "2 powi e \<le> \<bar>x\<bar>" and "\<bar>x\<bar> < 2 powi (e + 1)"
  shows "toDouble x =
     (let u = 2 powi (max (e - 52) (- 1074)); y = of_int (roundEven (x / u)) * u in
      if 2 ^ 1024 \<le> \<bar>y\<bar> then (if x < 0 then NInf else PInf) else Fin y)"
proof -
  have "x \<noteq> 0" using assms(1) by (smt (verit) zero_less_power_int abs_zero)
  then show ?thesis
    by (simp add: toDouble_def ulp_def binade_eq [OF assms] Let_def)
qed

section \<open>The model scorer on any parsed model\<close>

lemma converts_jsNumber:
  assumes "converts v"
  shows "\<exists>a. jsNumber (Some v) = Returns a"
  using assms by (cases v) simp_all

lemma jadd_NaN [simp]: "jadd s NaN = NaN"
  by (cases s) simp_all

lemma jmul_NaN [simp]: "jmul a NaN = NaN"
  by (cases a) simp_all

lemma jsNumber_not_Diverges [simp]: "jsNumber f \<noteq> Diverges"
proof (cases f)
  case None
  then show ?thesis by simp
next
  case (Some v)
  then show ?thesis by (cases v) simp_all
qed

lemma dadd_NaN [simp]: "dadd s NaN = NaN"
  by (cases s) simp_all

lemma dmul_NaN [simp]: "dmul a NaN = NaN"
  by (cases a) simp_all

lemma loopTo_Suc: "loopTo c counts i (Suc n) = addTerm c counts (loopTo c counts i n) n"
  by (simp add: loopTo_def)

lemma loopTo_0: "loopTo c counts i 0 = Returns i"
  by (simp add: loopTo_def)

lemma loopTo_array_returns:
  assumes "list_all converts cs" and "n \<le> length cs"
  shows "\<exists>s. loopTo (JArr cs) counts i n = Returns s"
  using assms(2)
proof (induction n)
  case 0
  show ?case by (simp add: loopTo_0)
next
  case (Suc n)
  then obtain s where s: "loopTo (JArr cs) counts i n = Returns s"
    by auto
  have "converts (cs ! n)"
    using assms(1) Suc.prems by (simp add: list_all_length)
  then obtain a where "jsNumber (Some (cs ! n)) = Returns a"
    using converts_jsNumber by blast
  then show ?case
    using Suc.prems by (simp add: loopTo_Suc s)
qed

lemma loopTo_array_short_counts:
  assumes "list_all converts cs" and "n \<le> length cs" and "length counts < n"
  shows "loopTo (JArr cs) counts i n = Returns NaN"
  using assms(2,3)
proof (induction n)
  case 0
  then show ?case by simp
next
  case (Suc n)
  obtain s where s: "loopTo (JArr cs) counts i n = Returns s"
    using loopTo_array_returns [OF assms(1), of n] Suc.prems by auto
  have "converts (cs ! n)"
    using assms(1) Suc.prems by (simp add: list_all_length)
  then obtain a where a: "jsNumber (Some (cs ! n)) = Returns a"
    using converts_jsNumber by blast
  show ?case
  proof (cases "length counts < n")
    case True
    then have "s = NaN" using Suc s by simp
    then show ?thesis
      using Suc.prems by (simp add: loopTo_Suc s a)
  next
    case False
    then have "countAt counts n = NaN"
      using Suc.prems by (simp add: countAt_def)
    then show ?thesis
      using Suc.prems by (simp add: loopTo_Suc s a)
  qed
qed

lemma loopTo_numbers:
  assumes "n \<le> length xs" and "n \<le> length counts"
  shows "loopTo (JArr (map JNum xs)) counts i n =
     Returns (weightedSum i (map toDouble (take n xs)) (take n counts))"
  using assms
proof (induction n)
  case 0
  show ?case by (simp add: loopTo_0 weightedSum_def)
next
  case (Suc n)
  then have n: "n < length xs" "n < length counts" by simp_all
  have "weightedSum i (map toDouble (take (Suc n) xs)) (take (Suc n) counts) =
      dadd (weightedSum i (map toDouble (take n xs)) (take n counts))
        (dmul (toDouble (xs ! n)) (Fin (real (counts ! n))))"
    using n by (simp add: weightedSum_def take_Suc_conv_app_nth)
  then show ?case
    using Suc n by (simp add: loopTo_Suc countAt_def)
qed

lemma complete_scoreResult: "complete (scoreResult s)"
proof -
  obtain c where "confidence (scoreResult s) = Fin c" and "1 / 2 \<le> c" and "c \<le> 1"
    using scoreResult_confidence by blast
  then show ?thesis
    using scoreResult_prediction [of s] scoreResult_explanation [of s]
    by (simp add: complete_def)
qed

lemma length_hitCounts: "length (hitCounts v words) = length v"
  by (simp add: hitCounts_def)

lemma declines_iff:
  "predictWithModelParsed m text = Returns None \<longleftrightarrow>
     \<not> truthy m \<or> \<not> truthyField (getField m ''vocab'') \<or> \<not> truthyField (getField m ''coef'') \<or>
     jsNumber (getField m ''intercept'') = Returns NaN \<or>
     (\<exists>i v c. jsNumber (getField m ''intercept'') = Returns i \<and>
        getField m ''vocab'' = Some (JArr v) \<and> getField m ''coef'' = Some c \<and>
        linearScoreParsed i c (hitCounts v (wordRuns (toLowerCase text))) = Returns NaN)"
  unfolding predictWithModelParsed_def countWordsParsed_hitCounts tokenize_wordRuns
  by (auto split: outcome.splits option.splits json.splits)

lemma result_complete:
  assumes "predictWithModelParsed m text = Returns (Some r)"
  shows "complete r"
  using assms complete_scoreResult
  unfolding predictWithModelParsed_def
  by (auto split: outcome.splits option.splits json.splits if_splits)

lemma arrays_return:
  assumes "getField m ''vocab'' = Some (JArr v)" and "getField m ''coef'' = Some (JArr cs)"
    and "list_all converts cs" and "jsNumber (getField m ''intercept'') \<noteq> Throws"
  shows "\<exists>out. predictWithModelParsed m text = Returns out"
proof -
  obtain i where i: "jsNumber (getField m ''intercept'') = Returns i"
    using assms(4) by (cases "jsNumber (getField m ''intercept'')") simp_all
  obtain s where s: "loopTo (JArr cs) (countWordsParsed v (tokenize text)) i (length cs) = Returns s"
    using loopTo_array_returns [OF assms(3), of "length cs"] by auto
  show ?thesis
    by (simp add: predictWithModelParsed_def assms(1,2) i linearScoreParsed_def s)
qed

lemma numbers_weightedSum:
  assumes "getField m ''vocab'' = Some (JArr v)" and "getField m ''coef'' = Some (JArr (map JNum xs))"
    and "length xs = length v" and "jsNumber (getField m ''intercept'') = Returns i"
  shows "predictWithModelParsed m text =
     (let score = weightedSum i (map toDouble xs) (hitCounts v (wordRuns (toLowerCase text)))
      in if i = NaN \<or> score = NaN then Returns None else Returns (Some (scoreResult score)))"
proof -
  have "truthy m"
    using assms(1) by (cases m) simp_all
  moreover have "loopTo (JArr (map JNum xs)) (hitCounts v words) i (length xs) =
      Returns (weightedSum i (map toDouble xs) (hitCounts v words))" for words
    using loopTo_numbers [of "length xs" xs "hitCounts v words" i] assms(3)
    by (simp add: length_hitCounts)
  ultimately show ?thesis
    unfolding predictWithModelParsed_def countWordsParsed_hitCounts tokenize_wordRuns
    by (simp add: assms linearScoreParsed_def Let_def)
qed

lemma longer_coef_declines:
  assumes "getField m ''vocab'' = Some (JArr v)" and "getField m ''coef'' = Some (JArr cs)"
    and "list_all converts cs" and "jsNumber (getField m ''intercept'') \<noteq> Throws"
    and "length v < length cs"
  shows "predictWithModelParsed m text = Returns None"
proof -
  obtain i where i: "jsNumber (getField m ''intercept'') = Returns i"
    using assms(4) by (cases "jsNumber (getField m ''intercept'')") simp_all
  have "loopTo (JArr cs) (hitCounts v words) i (length cs) = Returns NaN" for words
    using loopTo_array_short_counts [OF assms(3), of "length cs" "hitCounts v words" i] assms(5)
    by (simp add: length_hitCounts)
  then show ?thesis
    unfolding predictWithModelParsed_def countWordsParsed_hitCounts tokenize_wordRuns
    by (simp add: assms(1,2) i linearScoreParsed_def)
qed

text \<open>
  Claim C7, as the code has it. \<open>model\<close> is \<open>null\<close> or any value that \<open>JSON.parse\<close>
  returns. For every such value and every text:

  \<^item> the scorer returns \<open>null\<close> exactly when the model is falsy, its \<open>vocab\<close> or its
    \<open>coef\<close> is missing or falsy, \<open>Number(model.intercept)\<close> is \<open>NaN\<close>, or the loop of
    line 49, run in double arithmetic on the numbers of tokens that hit each vocabulary
    entry, ends with \<open>NaN\<close>;
  \<^item> whatever else it returns is a complete result: a label, a confidence between 0.5
    and 1, and the explanation of the label;
  \<^item> it does return when \<open>vocab\<close> and \<open>coef\<close> are arrays and the intercept and the entries
    of \<open>coef\<close> convert to numbers, and it returns \<open>null\<close> when moreover \<open>coef\<close> is the
    longer array;
  \<^item> when \<open>coef\<close> is an array of numbers as long as \<open>vocab\<close>, the score is the intercept
    plus the sum of coefficient times count, each operation rounded to a double, and the
    scorer returns \<open>null\<close> if the intercept or the score is \<open>NaN\<close> and the result of the
    score otherwise.

  \<open>Number\<close> takes \<open>null\<close>, \<open>true\<close>, \<open>false\<close>, the empty string and numeric strings
  for numbers. The counts are those of \<open>hitCounts\<close> on the tokens of \<open>wordRuns\<close>. The
  fields of a result are those of \<open>scoreResult\<close>, computed with the exact exponential.
  Models on which a conversion or line 38 throws are outside the statement.
\<close>

theorem predictWithModelParsed_declines_iff:
  "(predictWithModelParsed m text = Returns None \<longleftrightarrow>
      \<not> truthy m \<or> \<not> truthyField (getField m ''vocab'') \<or> \<not> truthyField (getField m ''coef'') \<or>
      jsNumber (getField m ''intercept'') = Returns NaN \<or>
      (\<exists>i v c. jsNumber (getField m ''intercept'') = Returns i \<and>
         getField m ''vocab'' = Some (JArr v) \<and> getField m ''coef'' = Some c \<and>
         linearScoreParsed i c (hitCounts v (wordRuns (toLowerCase text))) = Returns NaN)) \<and>
   (\<forall>r. predictWithModelParsed m text = Returns (Some r) \<longrightarrow> complete r) \<and>
   (\<forall>v cs. getField m ''vocab'' = Some (JArr v) \<and> getField m ''coef'' = Some (JArr cs) \<and>
       list_all converts cs \<and> jsNumber (getField m ''intercept'') \<noteq> Throws \<longrightarrow>
       (\<exists>out. predictWithModelParsed m text = Returns out) \<and>
       (length v < length cs \<longrightarrow> predictWithModelParsed m text = Returns None)) \<and>
   (\<forall>v xs i. getField m ''vocab'' = Some (JArr v) \<and> getField m ''coef'' = Some (JArr (map JNum xs)) \<and>
       length xs = length v \<and> jsNumber (getField m ''intercept'') = Returns i \<longrightarrow>
       predictWithModelParsed m text =
         (let score = weightedSum i (map toDouble xs) (hitCounts v (wordRuns (toLowerCase text)))
          in if i = NaN \<or> score = NaN then Returns None else Returns (Some (scoreResult score))))"
proof (intro conjI allI impI)
  show "predictWithModelParsed m text = Returns None \<longleftrightarrow>
      \<not> truthy m \<or> \<not> truthyField (getField m ''vocab'') \<or> \<not> truthyField (getField m ''coef'') \<or>
      jsNumber (getField m ''intercept'') = Returns NaN \<or>
      (\<exists>i v c. jsNumber (getField m ''intercept'') = Returns i \<and>
         getField m ''vocab'' = Some (JArr v) \<and> getField m ''coef'' = Some c \<and>
         linearScoreParsed i c (hitCounts v (wordRuns (toLowerCase text))) = Returns NaN)"
    by (rule declines_iff)
next
  fix r
  assume "predictWithModelParsed m text = Returns (Some r)"
  then show "complete r" by (rule result_complete)
next
  fix v cs
  assume a: "getField m ''vocab'' = Some (JArr v) \<and> getField m ''coef'' = Some (JArr cs) \<and>
       list_all converts cs \<and> jsNumber (getField m ''intercept'') \<noteq> Throws"
  then show "\<exists>out. predictWithModelParsed m text = Returns out"
    using arrays_return by blast
  assume "length v < length cs"
  with a show "predictWithModelParsed m text = Returns None"
    using longer_coef_declines by blast
next
  fix v xs i
  assume "getField m ''vocab'' = Some (JArr v) \<and> getField m ''coef'' = Some (JArr (map JNum xs)) \<and>
       length xs = length v \<and> jsNumber (getField m ''intercept'') = Returns i"
  then show "predictWithModelParsed m text =
         (let score = weightedSum i (map toDouble xs) (hitCounts v (wordRuns (toLowerCase text)))
          in if i = NaN \<or> score = NaN then Returns None else Returns (Some (scoreResult score)))"
    using numbers_weightedSum by blast
qed

section \<open>Runs of the model scorer\<close>

lemma scoreResult_zero:
  "scoreResult (Fin 0) =
     \<lparr>prediction = ''Phishing'', confidence = Fin (1 / 2), explanation = modelExplanation ''Phishing''\<rparr>"
  by (simp add: scoreResult_def sigmoid_def round2_def jmax_def jmin_def jsub_def Let_def)

lemma linearScoreParsed_no_coef: "linearScoreParsed i (JArr []) counts = Returns i"
  by (simp add: linearScoreParsed_def loopTo_0)

lemma toDouble_1: "toDouble 1 = Fin 1"
  using toDouble_int [of 1] by simp

lemma toDouble_2: "toDouble 2 = Fin 2"
  using toDouble_int [of 2] by simp

lemma counts_a_b_b: "hitCounts [JStr ''a'', JStr ''b''] (wordRuns (toLowerCase ''a b b'')) = [1, 2]"
  by code_simp

lemma counts_clicking:
  "hitCounts [JStr ''click'', JStr ''here''] (wordRuns (toLowerCase ''Clicking!'')) = [1, 0]"
  by code_simp

lemma readNumber_minus_2: "readNumber ''-2'' = Literal True 2 0"
  by code_simp

lemma toDouble_minus_2: "toDouble (- 2) = Fin (- 2)"
  using toDouble_int [of "- 2"] by simp

lemma toDouble_half: "toDouble (1 / 2) = Fin (1 / 2)"
  by (rule toDouble_exact [where n = 1 and k = "- 1"]) simp_all

lemma toDouble_0: "toDouble 0 = Fin 0"
  by (simp add: toDouble_def)

text \<open>The double nearest to \<open>10 ^ 308\<close>, and its overflow.\<close>

lemma toDouble_1e308: "toDouble (10 ^ 308) = Fin (5010420900022432 * 2 ^ 971)"
  by (subst toDouble_eval [where e = 1023]) (simp_all add: roundEven_def Let_def)

lemma toDouble_minus_1e308: "toDouble (- (10 ^ 308)) = Fin (- (5010420900022432 * 2 ^ 971))"
  by (subst toDouble_eval [where e = 1023]) (simp_all add: roundEven_def Let_def)

lemma overflow_sample:
  fixes D :: real
  assumes "D = 5010420900022432 * 2 ^ 971"
  shows "toDouble D = Fin D" and "toDouble (2 * D) = PInf" and "toDouble (- (D * 2)) = NInf"
proof -
  show "toDouble D = Fin D"
    by (rule toDouble_exact [where n = 5010420900022432 and k = 971]) (simp_all add: assms)
  show "toDouble (2 * D) = PInf"
    by (subst toDouble_eval [where e = 1024]) (simp_all add: assms roundEven_def Let_def)
  show "toDouble (- (D * 2)) = NInf"
    by (subst toDouble_eval [where e = 1024]) (simp_all add: assms roundEven_def Let_def)
qed

lemma weightedSum_overflow:
  "weightedSum (toDouble (10 ^ 308)) (map toDouble [10 ^ 308, - (10 ^ 308)]) [1, 2] = NaN"
proof -
  define D :: real where "D = 5010420900022432 * 2 ^ 971"
  note o = overflow_sample [OF D_def]
  have "weightedSum (Fin D) [Fin D, Fin (- D)] [1, 2] = NaN"
    by (simp add: weightedSum_def o)
  then show ?thesis
    by (simp only: toDouble_1e308 toDouble_minus_1e308 list.map D_def)
qed

lemma weightedSum_zero: "weightedSum (Fin (- 2)) (map toDouble [2, 1 / 2]) [1, 0] = Fin 0"
  by (simp add: weightedSum_def toDouble_2 toDouble_half toDouble_0)

lemma readNumber_two: "readNumber ''two'' = NotNumeric"
  by code_simp

text \<open>
  Claim C7 as worded fails on two models. The intercept \<open>null\<close> is not a number, yet
  \<open>Number(null)\<close> is 0 and the scorer returns a result. And a model whose vocabulary is an
  object of words has a vocabulary, coefficients and a numeric intercept, and the scorer
  neither declines nor returns a result: line 38 throws.
\<close>

theorem null_intercept_counterexample:
  "predictWithModelParsed
     (JObj [(''vocab'', JArr [JStr ''click'']), (''coef'', JArr [JNum 2]), (''intercept'', JNull)]) ''hello'' =
     Returns (Some \<lparr>prediction = ''Phishing'', confidence = Fin (1 / 2),
       explanation = modelExplanation ''Phishing''\<rparr>) \<and>
   predictWithModelParsed
     (JObj [(''vocab'', JObj [(''click'', JNum 0)]), (''coef'', JArr [JNum 2]), (''intercept'', JNum 1)]) ''hello'' =
     Throws"
proof
  have w: "wordRuns (toLowerCase ''hello'') = [''hello'']" by code_simp
  have c: "countWordsParsed [JStr ''click''] [''hello''] = [0]" by code_simp
  show "predictWithModelParsed
     (JObj [(''vocab'', JArr [JStr ''click'']), (''coef'', JArr [JNum 2]), (''intercept'', JNull)]) ''hello'' =
     Returns (Some \<lparr>prediction = ''Phishing'', confidence = Fin (1 / 2),
       explanation = modelExplanation ''Phishing''\<rparr>)"
    by (simp add: predictWithModelParsed_def ownProp_def tokenize_wordRuns w c linearScoreParsed_def
        loopTo_Suc loopTo_0 countAt_def toDouble_2 toDouble_def [of 0] scoreResult_zero)
  show "predictWithModelParsed
     (JObj [(''vocab'', JObj [(''click'', JNum 0)]), (''coef'', JArr [JNum 2]), (''intercept'', JNum 1)]) ''hello'' =
     Throws"
    by (simp add: predictWithModelParsed_def ownProp_def toDouble_1)
qed

text \<open>The statement at nine models: coefficients of \<open>1e308\<close> and \<open>-1e308\<close> whose sum
  overflows to \<open>NaN\<close>, an intercept given as the string \<open>-2\<close>, the completeness of the
  result returned there, a missing intercept, more coefficients than words, the model
  \<open>null\<close>, empty arrays, an intercept given as a word, and an intercept given as an
  object.\<close>

theorem predictWithModelParsed_declines_iff_witness:
  "predictWithModelParsed
     (JObj [(''vocab'', JArr [JStr ''a'', JStr ''b'']),
            (''coef'', JArr [JNum (10 ^ 308), JNum (- (10 ^ 308))]),
            (''intercept'', JNum (10 ^ 308))]) ''a b b'' = Returns None \<and>
   predictWithModelParsed
     (JObj [(''vocab'', JArr [JStr ''click'', JStr ''here'']),
            (''coef'', JArr [JNum 2, JNum (1 / 2)]),
            (''intercept'', JStr ''-2'')]) ''Clicking!'' =
     Returns (Some \<lparr>prediction = ''Phishing'', confidence = Fin (1 / 2),
       explanation = modelExplanation ''Phishing''\<rparr>) \<and>
   complete \<lparr>prediction = ''Phishing'', confidence = Fin (1 / 2),
     explanation = modelExplanation ''Phishing''\<rparr> \<and>
   predictWithModelParsed
     (JObj [(''vocab'', JArr [JStr ''click'']), (''coef'', JArr [JNum 2])]) ''Clicking!'' = Returns None \<and>
   predictWithModelParsed
     (JObj [(''vocab'', JArr [JStr ''click'']), (''coef'', JArr [JNum 2, JNull]),
            (''intercept'', JBool True)]) ''Clicking!'' = Returns None \<and>
   predictWithModelParsed JNull ''Clicking!'' = Returns None \<and>
   predictWithModelParsed
     (JObj [(''vocab'', JArr []), (''coef'', JArr []), (''intercept'', JNum 0)]) ''Clicking!'' =
     Returns (Some \<lparr>prediction = ''Phishing'', confidence = Fin (1 / 2),
       explanation = modelExplanation ''Phishing''\<rparr>) \<and>
   predictWithModelParsed
     (JObj [(''vocab'', JArr [JStr ''click'']), (''coef'', JArr [JNum 2]),
            (''intercept'', JStr ''two'')]) ''Clicking!'' = Returns None \<and>
   predictWithModelParsed
     (JObj [(''vocab'', JArr [JStr ''click'']), (''coef'', JArr [JNum 2]),
            (''intercept'', JObj [(''value'', JNum 2)])]) ''Clicking!'' = Returns None"
proof -
  let ?empty = "JObj [(''vocab'', JArr []), (''coef'', JArr []), (''intercept'', JNum 0)]"
  let ?word = "JObj [(''vocab'', JArr [JStr ''click'']), (''coef'', JArr [JNum 2]),
            (''intercept'', JStr ''two'')]"
  let ?boxed = "JObj [(''vocab'', JArr [JStr ''click'']), (''coef'', JArr [JNum 2]),
            (''intercept'', JObj [(''value'', JNum 2)])]"
  let ?over = "JObj [(''vocab'', JArr [JStr ''a'', JStr ''b'']),
            (''coef'', JArr [JNum (10 ^ 308), JNum (- (10 ^ 308))]),
            (''intercept'', JNum (10 ^ 308))]"
  let ?plain = "JObj [(''vocab'', JArr [JStr ''click'', JStr ''here'']),
            (''coef'', JArr [JNum 2, JNum (1 / 2)]),
            (''intercept'', JStr ''-2'')]"
  let ?bare = "JObj [(''vocab'', JArr [JStr ''click'']), (''coef'', JArr [JNum 2])]"
  let ?long = "JObj [(''vocab'', JArr [JStr ''click'']), (''coef'', JArr [JNum 2, JNull]),
            (''intercept'', JBool True)]"
  let ?r = "\<lparr>prediction = ''Phishing'', confidence = Fin (1 / 2),
       explanation = modelExplanation ''Phishing''\<rparr>"
  have "predictWithModelParsed
       (JObj [(''vocab'', JArr [JStr ''a'', JStr ''b'']), (''coef'', JArr [JNum x, JNum (- x)]),
              (''intercept'', JNum x)]) ''a b b'' = Returns None"
    if "weightedSum (toDouble x) (map toDouble [x, - x]) [1, 2] = NaN" for x
    using that predictWithModelParsed_declines_iff [of "JObj [(''vocab'', JArr [JStr ''a'', JStr ''b'']),
        (''coef'', JArr [JNum x, JNum (- x)]), (''intercept'', JNum x)]" "''a b b''",
        THEN conjunct2, THEN conjunct2, THEN conjunct2, rule_format,
        of "[JStr ''a'', JStr ''b'']" "[x, - x]" "toDouble x"]
    by (simp add: ownProp_def counts_a_b_b)
  then have a: "predictWithModelParsed ?over ''a b b'' = Returns None"
    using weightedSum_overflow by blast
  have b: "predictWithModelParsed ?plain ''Clicking!'' = Returns (Some ?r)"
    using predictWithModelParsed_declines_iff [of ?plain "''Clicking!''", THEN conjunct2, THEN conjunct2,
        THEN conjunct2, rule_format, of "[JStr ''click'', JStr ''here'']" "[2, 1 / 2]" "Fin (- 2)"]
    by (simp add: ownProp_def counts_clicking weightedSum_zero [unfolded list.map One_nat_def]
        strToNumber_def readNumber_minus_2
        toDouble_minus_2 scoreResult_zero)
  have c: "complete ?r"
    using predictWithModelParsed_declines_iff [of ?plain "''Clicking!''", THEN conjunct2, THEN conjunct1,
        rule_format, of ?r] b
    by simp
  have d: "predictWithModelParsed ?bare ''Clicking!'' = Returns None"
    using predictWithModelParsed_declines_iff [of ?bare "''Clicking!''", THEN conjunct1]
    by (simp add: ownProp_def)
  have e: "predictWithModelParsed ?long ''Clicking!'' = Returns None"
    using predictWithModelParsed_declines_iff [of ?long "''Clicking!''", THEN conjunct2, THEN conjunct2,
        THEN conjunct1, rule_format, of "[JStr ''click'']" "[JNum 2, JNull]"]
    by (simp add: ownProp_def)
  have f: "predictWithModelParsed JNull ''Clicking!'' = Returns None"
    using predictWithModelParsed_declines_iff [of JNull "''Clicking!''", THEN conjunct1]
    by simp
  have g: "predictWithModelParsed ?empty ''Clicking!'' = Returns (Some ?r)"
    using predictWithModelParsed_declines_iff [of ?empty "''Clicking!''", THEN conjunct2, THEN conjunct2,
        THEN conjunct2, rule_format, of "[]" "[]" "Fin 0"]
    by (simp add: ownProp_def weightedSum_def toDouble_0 hitCounts_def scoreResult_zero)
  have h: "predictWithModelParsed ?word ''Clicking!'' = Returns None"
    using predictWithModelParsed_declines_iff [of ?word "''Clicking!''", THEN conjunct1]
    by (simp add: ownProp_def strToNumber_def readNumber_two)
  have k: "predictWithModelParsed ?boxed ''Clicking!'' = Returns None"
    using predictWithModelParsed_declines_iff [of ?boxed "''Clicking!''", THEN conjunct1]
    by (simp add: ownProp_def)
  from a b c d e f g h k show ?thesis by blast
qed

end
